theory Spec2Isabelle
  imports Main
begin

section \<open>The resume editor of the popup script\<close>

text \<open>
  The development embeds the ``advanced editor'' of the extension's popup script:
  \<^verbatim>\<open>renderEditor\<close>, \<^verbatim>\<open>renderItemBlock\<close>, \<^verbatim>\<open>createBulletRow\<close>, \<^verbatim>\<open>parseEditor\<close> and the
  click and change handlers of the edit, cancel, section and save controls.

  Conventions.
  \<^item> A JavaScript string is a \<^typ>\<open>string\<close>; a \<^typ>\<open>char\<close> stands for a UTF-16 code unit
    below 256, so of the characters \<^verbatim>\<open>trim\<close> strips only those below 256 appear.
  \<^item> A JavaScript value is a \<open>jsval\<close>. Numbers are left out (the document holds text,
    lists and mappings only). An object is the list of its own properties in property
    order; property names are taken to be ordinary names (see \<open>plain_key\<close>), for which
    property order is insertion order.
  \<^item> An exception is the value \<open>None\<close> of the function that throws; where the call has
    changed the form before it throws, the function returns the form and a flag.
  \<^item> \<^verbatim>\<open>JSON.stringify\<close> and \<^verbatim>\<open>JSON.parse\<close> belong to the platform and are parameters
    (\<open>json_api\<close>): \<open>json_stringify\<close> gives the text the fallback template shows for
    \<^verbatim>\<open>JSON.stringify(data, null, 2)\<close>, and a text that \<^verbatim>\<open>JSON.parse\<close> rejects is one that
    \<open>json_parse\<close> maps to \<open>None\<close>.
  \<^item> A handler runs to its end in one step; the handlers that wait for the storage or for
    the server are given what they get from it.
\<close>

subsection \<open>JavaScript values\<close>

datatype jsval =
    JUndefined
  | JNull
  | JBool bool
  | JStr string
  | JArr "jsval list"
  | JObj "(string \<times> jsval) list"

type_synonym jsobj = "(string \<times> jsval) list"

record json_api =
  json_stringify :: "jsval \<Rightarrow> string"
  json_parse :: "string \<Rightarrow> jsval option"

text \<open>Truthiness, and \<^verbatim>\<open>a || b\<close>.\<close>

fun truthy :: "jsval \<Rightarrow> bool" where
  "truthy JUndefined = False"
| "truthy JNull = False"
| "truthy (JBool b) = b"
| "truthy (JStr s) = (s \<noteq> [])"
| "truthy (JArr xs) = True"
| "truthy (JObj kvs) = True"

definition js_or :: "jsval \<Rightarrow> jsval \<Rightarrow> jsval" where
  "js_or a b = (if truthy a then a else b)"

text \<open>\<^verbatim>\<open>typeof v === 'object'\<close> holds of \<^verbatim>\<open>null\<close>, arrays and objects.\<close>

fun typeof_object :: "jsval \<Rightarrow> bool" where
  "typeof_object JNull = True"
| "typeof_object (JArr xs) = True"
| "typeof_object (JObj kvs) = True"
| "typeof_object v = False"

text \<open>Reading and writing an own property of an object: \<^verbatim>\<open>o[k]\<close> and \<^verbatim>\<open>o[k] = v\<close>.\<close>

definition obj_get :: "jsobj \<Rightarrow> string \<Rightarrow> jsval" where
  "obj_get kvs k = (case map_of kvs k of None \<Rightarrow> JUndefined | Some v \<Rightarrow> v)"

fun obj_set :: "jsobj \<Rightarrow> string \<Rightarrow> jsval \<Rightarrow> jsobj" where
  "obj_set [] k v = [(k, v)]"
| "obj_set (p # ps) k v = (if fst p = k then (k, v) # ps else p # obj_set ps k v)"

text \<open>
  The own properties of a value whose fields the editor reads (\<^verbatim>\<open>item.role\<close>,
  \<^verbatim>\<open>data[f.key]\<close>): reading a field of \<^verbatim>\<open>undefined\<close> or \<^verbatim>\<open>null\<close> is a \<^verbatim>\<open>TypeError\<close>; a
  string, a boolean or an array has none of the fields the editor asks for.
\<close>

fun fields_of :: "jsval \<Rightarrow> jsobj option" where
  "fields_of JUndefined = None"
| "fields_of JNull = None"
| "fields_of (JObj kvs) = Some kvs"
| "fields_of v = Some []"

text \<open>Names for which property order is insertion order and assignment creates a property.\<close>

definition is_digit :: "char \<Rightarrow> bool" where
  "is_digit c = (c \<in> set ''0123456789'')"

definition plain_key :: "string \<Rightarrow> bool" where
  "plain_key k = (k \<noteq> ''__proto__'' \<and> \<not> (k \<noteq> [] \<and> list_all is_digit k))"

text \<open>Decimal digits of an index, for \<^verbatim>\<open>Object.entries\<close> of an array or a string.\<close>

fun dec :: "nat \<Rightarrow> string" where
  "dec n = (if n < 10 then [char_of (48 + n)] else dec (n div 10) @ [char_of (48 + n mod 10)])"

declare dec.simps [simp del]

text \<open>
  \<^verbatim>\<open>ToString\<close>, as a template literal applies it; \<open>None\<close> is the \<^verbatim>\<open>TypeError\<close> it throws.
  An array is joined with commas, \<^verbatim>\<open>undefined\<close> and \<^verbatim>\<open>null\<close> elements giving the empty text.
  An object gives \<^verbatim>\<open>[object Object]\<close> by the method it inherits; an object with an own
  property \<^verbatim>\<open>toString\<close> (never a function in a value that came as JSON) has no method
  that gives a primitive, and the conversion throws.
\<close>

definition join_comma :: "string list \<Rightarrow> string" where
  "join_comma xs = concat (case xs of [] \<Rightarrow> [] | y # ys \<Rightarrow> y # map (\<lambda>s. '','' @ s) ys)"

fun to_string :: "jsval \<Rightarrow> string option" where
  "to_string JUndefined = Some ''undefined''"
| "to_string JNull = Some ''null''"
| "to_string (JBool b) = Some (if b then ''true'' else ''false'')"
| "to_string (JStr s) = Some s"
| "to_string (JArr xs) =
     map_option join_comma
       (those (map (\<lambda>x. if x = JUndefined \<or> x = JNull then Some [] else to_string x) xs))"
| "to_string (JObj kvs) =
     (if ''toString'' \<in> set (map fst kvs) then None else Some ''[object Object]'')"

text \<open>\<^verbatim>\<open>Object.entries\<close> of a truthy value.\<close>

fun object_entries :: "jsval \<Rightarrow> (string \<times> jsval) list" where
  "object_entries (JObj kvs) = kvs"
| "object_entries (JArr xs) = map (\<lambda>i. (dec i, xs ! i)) [0..<length xs]"
| "object_entries (JStr s) = map (\<lambda>i. (dec i, JStr [s ! i])) [0..<length s]"
| "object_entries v = []"

text \<open>
  \<^verbatim>\<open>JSON.parse(JSON.stringify(v))\<close>, which is also what the extension storage keeps of a
  value: a property whose value is \<^verbatim>\<open>undefined\<close> is dropped, an array element that is
  \<^verbatim>\<open>undefined\<close> becomes \<^verbatim>\<open>null\<close>.
\<close>

fun json_clone :: "jsval \<Rightarrow> jsval" where
  "json_clone (JArr xs) = JArr (map (\<lambda>x. if x = JUndefined then JNull else json_clone x) xs)"
| "json_clone (JObj kvs) =
     JObj (map (\<lambda>(k, v). (k, json_clone v)) (filter (\<lambda>(k, v). v \<noteq> JUndefined) kvs))"
| "json_clone v = v"

definition clone_doc :: "jsobj \<Rightarrow> jsobj" where
  "clone_doc d = (case json_clone (JObj d) of JObj d' \<Rightarrow> d' | _ \<Rightarrow> [])"

subsection \<open>Strings\<close>

text \<open>\<^verbatim>\<open>String.prototype.trim\<close>: white space and line terminators below 256.\<close>

definition is_space :: "char \<Rightarrow> bool" where
  "is_space c = (c \<in> {CHR 0x09, CHR 0x0A, CHR 0x0B, CHR 0x0C, CHR 0x0D, CHR 0x20, CHR 0xA0})"

definition trim :: "string \<Rightarrow> string" where
  "trim s = rev (dropWhile is_space (rev (dropWhile is_space s)))"

text \<open>\<^verbatim>\<open>text.replace(/"/g, '&quot;')\<close>.\<close>

fun escape_quot :: "string \<Rightarrow> string" where
  "escape_quot [] = []"
| "escape_quot (c # cs) =
     (if c = CHR 0x22 then CHR 0x26 # ''quot;'' @ escape_quot cs else c # escape_quot cs)"

subsection \<open>What the browser reads back from the markup\<close>

text \<open>
  \<^verbatim>\<open>renderEditor\<close> builds its controls by assigning markup to \<^verbatim>\<open>innerHTML\<close>, with the
  data interpolated as it is. The two functions below are the browser's fragment parser
  on the two places of interpolation, as far as the editor's own templates need it: the
  value of a double-quoted attribute ends at the first double quote, and in the content
  of a \<^verbatim>\<open>textarea\<close> the reference \<^verbatim>\<open>&quot;\<close> (which \<^verbatim>\<open>createBulletRow\<close> writes) is a
  double quote. Other character references, the normalisation of line breaks, and markup
  inside the data that would close the element early are not modelled: the results that
  depend on a value read back are stated for data that is \<open>attr_safe\<close> resp.
  \<open>text_safe\<close>, on which the browser reads back what was interpolated.
\<close>

definition html_attr_value :: "string \<Rightarrow> string" where
  "html_attr_value s = takeWhile (\<lambda>c. c \<noteq> CHR 0x22) s"

fun html_text_value :: "string \<Rightarrow> string" where
  "html_text_value [] = []"
| "html_text_value (c # cs) =
     (if c = CHR 0x26 \<and> take 5 cs = ''quot;'' then CHR 0x22 # html_text_value (drop 5 cs)
      else c # html_text_value cs)"

definition attr_safe :: "string \<Rightarrow> bool" where
  "attr_safe s = list_all (\<lambda>c. c \<notin> {CHR 0x22, CHR 0x26, CHR 0x3C, CHR 0x3E, CHR 0x0A, CHR 0x0D, CHR 0x00}) s"

definition text_safe :: "string \<Rightarrow> bool" where
  "text_safe s =
     (list_all (\<lambda>c. c \<notin> {CHR 0x26, CHR 0x3C, CHR 0x3E, CHR 0x0D, CHR 0x00}) s
      \<and> (case s of [] \<Rightarrow> True | c # cs \<Rightarrow> c \<noteq> CHR 0x0A))"

subsection \<open>The form container\<close>

text \<open>
  The content of \<^verbatim>\<open>formContainer\<close>, as far as \<^verbatim>\<open>parseEditor\<close> can observe it: the controls
  that carry an id, the \<^verbatim>\<open>.contact-input\<close> controls with their \<^verbatim>\<open>data-key\<close>, and the
  \<^verbatim>\<open>.item-block\<close> elements, each with the class and the value of its controls. All lists
  are in document order.
\<close>

record view =
  ids :: "(string \<times> string) list"
  contact_inputs :: "(string \<times> string) list"
  item_blocks :: "(string \<times> string) list list"

definition empty_view :: view where
  "empty_view = \<lparr>ids = [], contact_inputs = [], item_blocks = []\<rparr>"

subsection \<open>Rendering\<close>

text \<open>
  \<^verbatim>\<open>createBulletRow\<close>: the text placed inside the row's \<^verbatim>\<open>textarea\<close>;
  \<^verbatim>\<open>text.replace\<close> of a truthy value that is not a string is a \<^verbatim>\<open>TypeError\<close>.
\<close>

fun createBulletRow :: "jsval \<Rightarrow> string option" where
  "createBulletRow (JStr s) = Some (if s \<noteq> [] then escape_quot s else [])"
| "createBulletRow v = (if truthy v then None else Some [])"

fun bullet_rows :: "jsval list \<Rightarrow> (string \<times> string) list option" where
  "bullet_rows [] = Some []"
| "bullet_rows (b # bs) =
     (case createBulletRow b of
        None \<Rightarrow> None
      | Some t \<Rightarrow>
          (case bullet_rows bs of
             None \<Rightarrow> None
           | Some rows \<Rightarrow> Some ((''bullet-input'', html_text_value t) # rows)))"

text \<open>
  A control of a template whose \<^verbatim>\<open>value\<close> attribute interpolates \<open>v\<close>: its class and the
  value read back; \<open>None\<close> when the interpolation throws.
\<close>

definition field :: "string \<times> jsval \<Rightarrow> (string \<times> string) option" where
  "field cv = map_option (\<lambda>s. (fst cv, html_attr_value s)) (to_string (snd cv))"

text \<open>
  \<^verbatim>\<open>renderItemBlock\<close>: the header controls of the block, by section, each with the value
  its template interpolates.
\<close>

definition header_values :: "string \<Rightarrow> jsobj \<Rightarrow> (string \<times> jsval) list" where
  "header_values section item =
     (if section = ''experience'' then
        (let roleVal = js_or (js_or (obj_get item ''role'') (obj_get item ''title'')) (JStr []);
             dateVal = js_or (js_or (obj_get item ''dates'') (obj_get item ''date'')) (JStr []);
             locVal = js_or (obj_get item ''location'') (JStr [])
         in [(''item-company'', js_or (obj_get item ''company'') (JStr [])),
             (''item-role'', roleVal),
             (''item-location'', locVal),
             (''item-dates'', dateVal)])
      else if section = ''leadership'' then
        (let orgVal = js_or (obj_get item ''organization'') (JStr []);
             roleVal = js_or (obj_get item ''role'') (JStr []);
             dateVal = js_or (obj_get item ''dates'') (JStr []);
             locVal = js_or (obj_get item ''location'') (JStr [])
         in [(''item-org'', orgVal),
             (''item-role'', roleVal),
             (''item-location'', locVal),
             (''item-dates'', dateVal)])
      else
        (let dateVal = js_or (js_or (obj_get item ''dates'') (obj_get item ''date'')) (JStr [])
         in [(''item-name'', js_or (obj_get item ''name'') (JStr [])),
             (''item-tech'', js_or (obj_get item ''tech'') (JStr [])),
             (''item-dates'', dateVal)]))"

definition header_fields :: "string \<Rightarrow> jsobj \<Rightarrow> (string \<times> string) list option" where
  "header_fields section item = those (map field (header_values section item))"

text \<open>
  \<^verbatim>\<open>renderItemBlock\<close>: the controls of the block appended to the list, header fields
  first, then one row for each bullet when \<^verbatim>\<open>item.bullets\<close> is an array; \<open>None\<close> when it
  throws, which is before the block is appended.
\<close>

definition renderItemBlock :: "string \<Rightarrow> jsval \<Rightarrow> (string \<times> string) list option" where
  "renderItemBlock section item =
     (case fields_of item of
        None \<Rightarrow> None
      | Some kvs \<Rightarrow>
          (case header_fields section kvs of
             None \<Rightarrow> None
           | Some header \<Rightarrow>
               (case (case obj_get kvs ''bullets'' of JArr bs \<Rightarrow> bullet_rows bs | _ \<Rightarrow> Some []) of
                  None \<Rightarrow> None
                | Some rows \<Rightarrow> Some (header @ rows))))"

fun render_items :: "string \<Rightarrow> jsval list \<Rightarrow> (string \<times> string) list list option" where
  "render_items section [] = Some []"
| "render_items section (item # items) =
     (case renderItemBlock section item of
        None \<Rightarrow> None
      | Some b \<Rightarrow>
          (case render_items section items of
             None \<Rightarrow> None
           | Some bs \<Rightarrow> Some (b # bs)))"

text \<open>
  One field of the contact form: the key itself first, then the legacy alias
  (\<^verbatim>\<open>linkedin\<close>, \<^verbatim>\<open>portfolio\<close>), then the empty string.
\<close>

definition contact_fields :: "string list" where
  "contact_fields =
     [''location'', ''email'', ''phone'', ''linkedin_url'', ''portfolio_url'', ''github'']"

definition contact_value :: "jsobj \<Rightarrow> string \<Rightarrow> jsval" where
  "contact_value d key =
     (let val = obj_get d key;
          val1 = (if \<not> truthy val \<and> key = ''linkedin_url'' then obj_get d ''linkedin'' else val);
          val2 = (if \<not> truthy val1 \<and> key = ''portfolio_url'' then obj_get d ''portfolio'' else val1)
      in js_or val2 (JStr []))"

text \<open>
  The loop over the fields of the contact form appends each control as soon as it is
  built: the controls appended, and whether the loop threw. A throw leaves the controls
  of the earlier fields in the form.
\<close>

fun render_contact :: "jsobj \<Rightarrow> string list \<Rightarrow> (string \<times> string) list \<times> bool" where
  "render_contact d [] = ([], False)"
| "render_contact d (key # keys) =
     (case to_string (contact_value d key) of
        None \<Rightarrow> ([], True)
      | Some s \<Rightarrow>
          (case render_contact d keys of
             (inputs, threw) \<Rightarrow> ((key, html_attr_value s) # inputs, threw)))"

text \<open>
  One block of the skills form; \<open>None\<close> when the interpolation of the skills throws.
\<close>

definition skills_block :: "string \<times> jsval \<Rightarrow> (string \<times> string) list option" where
  "skills_block entry =
     map_option
       (\<lambda>s. [(''skill-category-input'', html_attr_value (fst entry)),
             (''skill-values-input'', html_text_value s)])
       (to_string (snd entry))"

text \<open>
  The content \<^verbatim>\<open>renderEditor\<close> gives the form container, which it has emptied first, and
  whether it threw. Outside the contact branch a throw happens before anything is
  appended, and leaves the container empty.
\<close>

definition render_view :: "json_api \<Rightarrow> string \<Rightarrow> jsval \<Rightarrow> view \<times> bool" where
  "render_view P section data =
     (if section = ''summary'' then
        (case to_string (js_or data (JStr [])) of
           None \<Rightarrow> (empty_view, True)
         | Some s \<Rightarrow> (empty_view\<lparr>ids := [(''edit_summary_text'', html_text_value s)]\<rparr>, False))
      else if section = ''contact'' then
        (let data1 = (if \<not> typeof_object data
                      then JObj [(''location'', js_or data (JStr []))] else data)
         in (case fields_of data1 of
               None \<Rightarrow> (empty_view, True)
             | Some d \<Rightarrow>
                 (case render_contact d contact_fields of
                    (inputs, threw) \<Rightarrow> (empty_view\<lparr>contact_inputs := inputs\<rparr>, threw))))
      else if section = ''skills'' then
        (let data1 = (if \<not> truthy data then JObj [] else data)
         in (case those (map skills_block (object_entries data1)) of
               None \<Rightarrow> (empty_view, True)
             | Some blocks \<Rightarrow> (empty_view\<lparr>item_blocks := blocks\<rparr>, False)))
      else if section = ''experience'' \<or> section = ''projects'' \<or> section = ''leadership'' then
        (let data1 = (if \<not> truthy data then JArr [] else data)
         in (case data1 of
               JArr items \<Rightarrow>
                 (case render_items section items of
                    None \<Rightarrow> (empty_view, True)
                  | Some blocks \<Rightarrow> (empty_view\<lparr>item_blocks := blocks\<rparr>, False))
             | _ \<Rightarrow> (empty_view, True)))
      else
        (empty_view\<lparr>ids := [(''edit_raw_json'', html_text_value (json_stringify P data))]\<rparr>,
         False))"

text \<open>
  \<^verbatim>\<open>renderEditor\<close> on the form container (\<open>None\<close>: there is no such element): the new
  container, and whether the call threw.
\<close>

definition renderEditor :: "json_api \<Rightarrow> string \<Rightarrow> jsval \<Rightarrow> view option \<Rightarrow> view option \<times> bool" where
  "renderEditor P section data fc =
     (case fc of
        None \<Rightarrow> (None, False)
      | Some old \<Rightarrow> (case render_view P section data of (v, threw) \<Rightarrow> (Some v, threw)))"

subsection \<open>Parsing\<close>

definition getVal :: "(string \<times> string) list \<Rightarrow> string \<Rightarrow> jsval" where
  "getVal block sel = (case map_of block sel of None \<Rightarrow> JStr [] | Some v \<Rightarrow> JStr v)"

definition parse_bullets :: "(string \<times> string) list \<Rightarrow> jsval" where
  "parse_bullets block =
     JArr (map JStr (filter (\<lambda>t. length (trim t) > 0)
       (map snd (filter (\<lambda>e. fst e = ''bullet-input'') block))))"

definition parse_item :: "string \<Rightarrow> (string \<times> string) list \<Rightarrow> jsval" where
  "parse_item section block =
     JObj
       ((if section = ''experience'' then
           [(''company'', getVal block ''item-company''),
            (''role'', getVal block ''item-role''),
            (''dates'', getVal block ''item-dates''),
            (''location'', getVal block ''item-location'')]
         else if section = ''leadership'' then
           [(''organization'', getVal block ''item-org''),
            (''role'', getVal block ''item-role''),
            (''dates'', getVal block ''item-dates''),
            (''location'', getVal block ''item-location'')]
         else
           [(''name'', getVal block ''item-name''),
            (''tech'', getVal block ''item-tech''),
            (''dates'', getVal block ''item-dates'')])
        @ [(''bullets'', parse_bullets block)])"

text \<open>The callbacks of the two \<^verbatim>\<open>forEach\<close> loops that fill an object, and the loops.\<close>

definition contact_step :: "jsobj \<Rightarrow> string \<times> string \<Rightarrow> jsobj" where
  "contact_step contactData input =
     (if trim (snd input) \<noteq> [] then obj_set contactData (fst input) (JStr (trim (snd input)))
      else contactData)"

definition parse_contact :: "(string \<times> string) list \<Rightarrow> jsobj" where
  "parse_contact inputs = foldl contact_step [] inputs"

definition skills_step :: "jsobj \<Rightarrow> (string \<times> string) list \<Rightarrow> jsobj" where
  "skills_step newSkills block =
     (case (map_of block ''skill-category-input'', map_of block ''skill-values-input'') of
        (Some cat, Some val) \<Rightarrow> obj_set newSkills cat (JStr val)
      | _ \<Rightarrow> newSkills)"

definition parse_skills :: "(string \<times> string) list list \<Rightarrow> jsobj" where
  "parse_skills blocks = foldl skills_step [] blocks"

text \<open>
  \<^verbatim>\<open>parseEditor\<close>, given the form container and the document being edited
  (\<^verbatim>\<open>currentEditingData\<close>, which the fallback branch reads).
\<close>

definition parseEditor :: "json_api \<Rightarrow> string \<Rightarrow> view option \<Rightarrow> jsobj \<Rightarrow> jsval" where
  "parseEditor P section fc doc =
     (case fc of
        None \<Rightarrow> JNull
      | Some v \<Rightarrow>
          (if section = ''summary'' then
             (case map_of (ids v) ''edit_summary_text'' of
                Some t \<Rightarrow> JStr t
              | None \<Rightarrow> JStr [])
           else if section = ''contact'' then JObj (parse_contact (contact_inputs v))
           else if section = ''skills'' then JObj (parse_skills (item_blocks v))
           else if section = ''experience'' \<or> section = ''projects'' \<or> section = ''leadership''
             then JArr (map (parse_item section) (item_blocks v))
           else
             (case map_of (ids v) ''edit_raw_json'' of
                Some raw \<Rightarrow>
                  (case json_parse P raw of
                     Some j \<Rightarrow> j
                   | None \<Rightarrow> obj_get doc section)
              | None \<Rightarrow> obj_get doc section)))"

subsection \<open>The popup's state and the handlers of the editor\<close>

text \<open>
  The extension storage holds, under \<^verbatim>\<open>lastResumeData\<close>, the document the server
  generated (an object), and text under the other keys; \<open>None\<close> is a key not set.
\<close>

record storage =
  lastResumeData :: "jsobj option"
  lastViewUrl :: "string option"
  lastStatus :: "string option"
  lastCompany :: "string option"

text \<open>The body of a request to \<^verbatim>\<open>/regenerate_pdf\<close>.\<close>

record request =
  resume_data :: jsobj
  company_name :: string
  filename :: string

text \<open>
  How the request ends: \<^verbatim>\<open>fetch\<close> rejects, the status is not ok, reading the body throws
  (it is not JSON), or the body is an object with a \<^verbatim>\<open>status\<close> and a \<^verbatim>\<open>view_url\<close>, both
  text. The errors carry their message.
\<close>

datatype fetch_outcome =
    NetworkError string
  | HttpError string
  | BodyError string
  | Response string string

record popup =
  currentViewUrl :: string
  currentEditingData :: "jsobj option"
  previousSection :: "string option"
  formContainer :: "view option"
  sectionSelect_value :: string
  editorUI_display :: string
  actionsDiv_display :: string
  statusDiv_text :: string
  saveRegenBtn_disabled :: bool
  saveRegenBtn_text :: string
  store :: storage
  alerts :: "string list"
  requests :: "request list"
  tabs :: "string list"

text \<open>
  The auto-save of the change handler and of the save handler: the section is parsed and
  the result, unless it is \<^verbatim>\<open>null\<close>, assigned to the document.
\<close>

definition commit :: "json_api \<Rightarrow> string \<Rightarrow> view option \<Rightarrow> jsobj \<Rightarrow> jsobj" where
  "commit P section fc doc =
     (let savedData = parseEditor P section fc doc
      in if savedData \<noteq> JNull then obj_set doc section savedData else doc)"

text \<open>
  The \<^verbatim>\<open>change\<close> handler of the section control. When \<^verbatim>\<open>renderEditor\<close> throws, the handler
  ends there and the tracker keeps its value.
\<close>

definition sectionSelect_change :: "json_api \<Rightarrow> popup \<Rightarrow> popup" where
  "sectionSelect_change P st =
     (case currentEditingData st of
        None \<Rightarrow> st
      | Some doc \<Rightarrow>
          (let doc1 =
                 (case previousSection st of
                    None \<Rightarrow> doc
                  | Some prev \<Rightarrow> if prev \<noteq> [] then commit P prev (formContainer st) doc else doc);
               section = sectionSelect_value st;
               (fc, threw) = renderEditor P section (obj_get doc1 section) (formContainer st)
           in st\<lparr>currentEditingData := Some doc1,
                 formContainer := fc,
                 previousSection := (if threw then previousSection st else Some section)\<rparr>))"

text \<open>The user picks section \<open>b\<close> in the section control.\<close>

definition navigate :: "json_api \<Rightarrow> string \<Rightarrow> popup \<Rightarrow> popup" where
  "navigate P b st = sectionSelect_change P (st\<lparr>sectionSelect_value := b\<rparr>)"

text \<open>
  The \<^verbatim>\<open>click\<close> handler of the edit button, up to the timer it starts, and the timer's
  callback.
\<close>

definition editBtn_click :: "json_api \<Rightarrow> popup \<Rightarrow> popup" where
  "editBtn_click P st =
     (let loaded =
            (case currentEditingData st of
               Some doc \<Rightarrow> Some st
             | None \<Rightarrow>
                 (case lastResumeData (store st) of
                    Some d \<Rightarrow> Some (st\<lparr>currentEditingData := Some (clone_doc d)\<rparr>)
                  | None \<Rightarrow> None))
      in (case loaded of
            None \<Rightarrow> st\<lparr>alerts := alerts st @ [''No resume data found to edit.'']\<rparr>
          | Some st1 \<Rightarrow>
              sectionSelect_change P
                (st1\<lparr>editorUI_display := ''block'', actionsDiv_display := ''none''\<rparr>)))"

definition editBtn_timeout :: "popup \<Rightarrow> popup" where
  "editBtn_timeout st = st\<lparr>previousSection := Some (sectionSelect_value st)\<rparr>"

definition cancelEditBtn_click :: "popup \<Rightarrow> popup" where
  "cancelEditBtn_click st = st\<lparr>editorUI_display := ''none'', actionsDiv_display := ''block''\<rparr>"

text \<open>
  The \<^verbatim>\<open>click\<close> handler of the save button, run to its end with the given outcome of the
  request.
\<close>

definition saveRegenBtn_click :: "json_api \<Rightarrow> fetch_outcome \<Rightarrow> popup \<Rightarrow> popup" where
  "saveRegenBtn_click P outcome st =
     (case currentEditingData st of
        None \<Rightarrow> st
      | Some doc \<Rightarrow>
          (let section = sectionSelect_value st;
               doc1 = commit P section (formContainer st) doc;
               companyName =
                 (case lastCompany (store st) of
                    None \<Rightarrow> ''Manual_Edit''
                  | Some c \<Rightarrow> if c \<noteq> [] then c else ''Manual_Edit'');
               st1 = st\<lparr>currentEditingData := Some doc1,
                        statusDiv_text := ''Regenerating PDF...'',
                        requests := requests st @
                          [\<lparr>resume_data = clone_doc doc1, company_name = companyName,
                            filename = ''Pranay_Saggar_Resume.pdf''\<rparr>]\<rparr>;
               st2 =
                 (case outcome of
                    NetworkError msg \<Rightarrow> st1\<lparr>alerts := alerts st1 @ [''Error: '' @ msg]\<rparr>
                  | HttpError statusText \<Rightarrow>
                      st1\<lparr>alerts := alerts st1 @ [''Error: '' @ ''Regeneration failed: '' @ statusText]\<rparr>
                  | BodyError msg \<Rightarrow> st1\<lparr>alerts := alerts st1 @ [''Error: '' @ msg]\<rparr>
                  | Response status view_url \<Rightarrow>
                      if status = ''success'' then
                        st1\<lparr>currentViewUrl := view_url,
                            store := (store st1)\<lparr>lastViewUrl := Some view_url,
                                                  lastResumeData := Some (clone_doc doc1),
                                                  lastStatus := Some ''Resume updated.''\<rparr>,
                            statusDiv_text := ''Resume updated successfully!'',
                            actionsDiv_display := ''block'',
                            editorUI_display := ''none'',
                            tabs := tabs st1 @ [view_url]\<rparr>
                      else st1)
           in st2\<lparr>saveRegenBtn_disabled := False, saveRegenBtn_text := ''Save & Regenerate''\<rparr>))"

section \<open>Vocabulary of the properties\<close>

text \<open>The section names \<^verbatim>\<open>renderEditor\<close> and \<^verbatim>\<open>parseEditor\<close> have a branch for.\<close>

definition known_sections :: "string list" where
  "known_sections =
     [''summary'', ''contact'', ''skills'', ''experience'', ''projects'', ''leadership'']"

text \<open>A value without \<^verbatim>\<open>undefined\<close> in it, which \<open>json_clone\<close> returns as it is.\<close>

fun defined_json :: "jsval \<Rightarrow> bool" where
  "defined_json JUndefined = False"
| "defined_json (JArr xs) = list_all defined_json xs"
| "defined_json (JObj kvs) = list_all (\<lambda>kv. defined_json (snd kv)) kvs"
| "defined_json v = True"

text \<open>
  The category and the skills of the blocks of a skills view that hold both controls, in
  document order.
\<close>

definition skill_pairs :: "(string \<times> string) list list \<Rightarrow> (string \<times> string) list" where
  "skill_pairs blocks =
     concat (map (\<lambda>block.
       (case (map_of block ''skill-category-input'', map_of block ''skill-values-input'') of
          (Some cat, Some val) \<Rightarrow> [(cat, val)]
        | _ \<Rightarrow> [])) blocks)"

subsection \<open>Data that keeps the markup intact\<close>

text \<open>
  A property of the text a value is interpolated as, when the interpolation does not throw.
\<close>

definition text_holds :: "(string \<Rightarrow> bool) \<Rightarrow> jsval \<Rightarrow> bool" where
  "text_holds p v = (case to_string v of None \<Rightarrow> True | Some s \<Rightarrow> p s)"

text \<open>
  Every text \<^verbatim>\<open>renderEditor\<close> interpolates for the data of a section satisfies \<open>pa\<close> when
  it is placed in a \<^verbatim>\<open>value\<close> attribute, and \<open>pt\<close> when it is placed in a \<^verbatim>\<open>textarea\<close>. The
  texts are the ones the templates of the section interpolate, after the fallbacks: for a
  leadership entry the \<^verbatim>\<open>title\<close> is not among them.
\<close>

definition item_texts_hold ::
  "(string \<Rightarrow> bool) \<Rightarrow> (string \<Rightarrow> bool) \<Rightarrow> string \<Rightarrow> jsval \<Rightarrow> bool" where
  "item_texts_hold pa pt section item =
     (case fields_of item of
        None \<Rightarrow> True
      | Some kvs \<Rightarrow>
          list_all (\<lambda>cv. text_holds pa (snd cv)) (header_values section kvs) \<and>
          (case obj_get kvs ''bullets'' of
             JArr bs \<Rightarrow> list_all (\<lambda>b. case b of JStr s \<Rightarrow> pt s | _ \<Rightarrow> True) bs
           | _ \<Rightarrow> True))"

definition texts_hold ::
  "(string \<Rightarrow> bool) \<Rightarrow> (string \<Rightarrow> bool) \<Rightarrow> string \<Rightarrow> jsval \<Rightarrow> bool" where
  "texts_hold pa pt section data =
     (if section = ''summary'' then text_holds pt (js_or data (JStr []))
      else if section = ''contact'' then
        (let data1 = (if \<not> typeof_object data
                      then JObj [(''location'', js_or data (JStr []))] else data)
         in (case fields_of data1 of
               None \<Rightarrow> True
             | Some d \<Rightarrow> list_all (\<lambda>key. text_holds pa (contact_value d key)) contact_fields))
      else if section = ''skills'' then
        (let data1 = (if \<not> truthy data then JObj [] else data)
         in list_all (\<lambda>entry. pa (fst entry) \<and> text_holds pt (snd entry)) (object_entries data1))
      else (case data of JArr items \<Rightarrow> list_all (item_texts_hold pa pt section) items | _ \<Rightarrow> True))"

text \<open>
  The texts are free of markup, so that the browser reads back each of them as it was
  interpolated: those placed in an attribute are \<open>attr_safe\<close>, those placed in a
  \<^verbatim>\<open>textarea\<close> are \<open>text_safe\<close>.
\<close>

definition markup_free :: "string \<Rightarrow> jsval \<Rightarrow> bool" where
  "markup_free section data = texts_hold attr_safe text_safe section data"

text \<open>
  The texts keep the markup of the templates intact, so that the form has the controls
  of the templates and no other: a text placed in an attribute has no double quote, which
  would end the attribute, and a text placed in a \<^verbatim>\<open>textarea\<close> has no \<^verbatim>\<open><\<close>, which could
  close it. Such a text may still be read back changed (a character reference is decoded);
  the statements made under this condition alone do not depend on the values of those
  texts.
\<close>

definition no_quote :: "string \<Rightarrow> bool" where
  "no_quote s = (CHR 0x22 \<notin> set s)"

definition no_tag :: "string \<Rightarrow> bool" where
  "no_tag s = (CHR 0x3C \<notin> set s)"

definition keeps_markup :: "string \<Rightarrow> jsval \<Rightarrow> bool" where
  "keeps_markup section data = texts_hold no_quote no_tag section data"

subsection \<open>Canonical section values and the round trip\<close>

text \<open>
  The canonical shape of the value of each known section: text for the summary, an object
  with text under some of the known keys for the contact, an object with text under
  ordinary names for the skills, and for the three lists an array of entries, each an
  object with text under the header keys of the section and an array of texts under
  \<^verbatim>\<open>bullets\<close>, and no other key.
\<close>

fun is_text :: "jsval \<Rightarrow> bool" where
  "is_text (JStr s) = True"
| "is_text v = False"

fun the_text :: "jsval \<Rightarrow> string" where
  "the_text (JStr s) = s"
| "the_text v = []"

definition entry_keys :: "string \<Rightarrow> string list" where
  "entry_keys section =
     (if section = ''experience'' then [''company'', ''role'', ''location'', ''dates'']
      else if section = ''leadership'' then [''organization'', ''role'', ''location'', ''dates'']
      else [''name'', ''tech'', ''dates''])"

definition canonical_entry :: "string \<Rightarrow> jsval \<Rightarrow> bool" where
  "canonical_entry section e =
     (case e of
        JObj kvs \<Rightarrow>
          distinct (map fst kvs) \<and>
          set (map fst kvs) = set (''bullets'' # entry_keys section) \<and>
          list_all (\<lambda>k. is_text (obj_get kvs k)) (entry_keys section) \<and>
          (case obj_get kvs ''bullets'' of JArr bs \<Rightarrow> list_all is_text bs | _ \<Rightarrow> False)
      | _ \<Rightarrow> False)"

definition canonical :: "string \<Rightarrow> jsval \<Rightarrow> bool" where
  "canonical section V =
     (if section = ''summary'' then is_text V
      else if section = ''contact'' then
        (case V of
           JObj d \<Rightarrow>
             distinct (map fst d) \<and> set (map fst d) \<subseteq> set contact_fields \<and>
             list_all (\<lambda>kv. is_text (snd kv)) d
         | _ \<Rightarrow> False)
      else if section = ''skills'' then
        (case V of
           JObj d \<Rightarrow>
             distinct (map fst d) \<and> list_all (\<lambda>kv. plain_key (fst kv) \<and> is_text (snd kv)) d
         | _ \<Rightarrow> False)
      else (case V of JArr es \<Rightarrow> list_all (canonical_entry section) es | _ \<Rightarrow> False))"

text \<open>
  The result \<open>R\<close> of a round trip is the value \<open>V\<close> up to three deviations. In the contact,
  a field whose text is empty after trimming is left out and the text of every other field
  is trimmed. In the entries of a list, the blank texts are dropped from \<^verbatim>\<open>bullets\<close>.
  Objects are compared as mappings: the order of their keys does not count.
\<close>

definition trimmed_contact :: "jsobj \<Rightarrow> string \<Rightarrow> jsval option" where
  "trimmed_contact d k =
     (case map_of d k of
        Some (JStr s) \<Rightarrow> if trim s = [] then None else Some (JStr (trim s))
      | _ \<Rightarrow> None)"

definition nonblank :: "jsval \<Rightarrow> bool" where
  "nonblank b = (case b of JStr t \<Rightarrow> trim t \<noteq> [] | _ \<Rightarrow> True)"

definition drop_blank_bullets :: "jsval \<Rightarrow> jsval" where
  "drop_blank_bullets v = (case v of JArr bs \<Rightarrow> JArr (filter nonblank bs) | _ \<Rightarrow> v)"

definition same_entry :: "jsval \<Rightarrow> jsval \<Rightarrow> bool" where
  "same_entry e r =
     (case (e, r) of
        (JObj kvs, JObj rk) \<Rightarrow>
          distinct (map fst rk) \<and>
          map_of rk = (map_of kvs)(''bullets'' \<mapsto> drop_blank_bullets (obj_get kvs ''bullets''))
      | _ \<Rightarrow> False)"

definition same_up_to :: "string \<Rightarrow> jsval \<Rightarrow> jsval \<Rightarrow> bool" where
  "same_up_to section V R =
     (if section = ''contact'' then
        (case (V, R) of
           (JObj d, JObj r) \<Rightarrow> distinct (map fst r) \<and> map_of r = trimmed_contact d
         | _ \<Rightarrow> False)
      else if section = ''experience'' \<or> section = ''projects'' \<or> section = ''leadership'' then
        (case (V, R) of
           (JArr es, JArr rs) \<Rightarrow> list_all2 same_entry es rs
         | _ \<Rightarrow> False)
      else R = V)"

text \<open>
  The contact of the round trip as the specification words it, with the one deviation
  that empty fields are left out: the text of a field that is kept is not changed.
\<close>

definition omitting_empty_contact :: "jsobj \<Rightarrow> string \<Rightarrow> jsval option" where
  "omitting_empty_contact d k =
     (case map_of d k of
        Some (JStr s) \<Rightarrow> if trim s = [] then None else Some (JStr s)
      | _ \<Rightarrow> None)"

section \<open>Closed examples\<close>

text \<open>
  The closed examples need some \<open>json_api\<close>. This one agrees with \<^verbatim>\<open>JSON\<close> on the only texts
  the examples hand to \<open>json_parse\<close>: \<^verbatim>\<open>null\<close>, which parses, and \<^verbatim>\<open>[oops\<close>, which does not.
  No example renders the fallback form, so none depends on \<open>json_stringify\<close>.
\<close>

definition example_json :: json_api where
  "example_json =
     \<lparr>json_stringify = (\<lambda>v. if v = JNull then ''null'' else ''undefined''),
      json_parse = (\<lambda>s. if s = ''null'' then Some JNull else None)\<rparr>"

text \<open>A state of the popup for the closed examples: nothing loaded, nothing shown.\<close>

definition example_popup :: popup where
  "example_popup =
     \<lparr>currentViewUrl = ''http://localhost:8000/view/Acme/1/Pranay_Saggar_Resume.pdf'',
      currentEditingData = None,
      previousSection = None,
      formContainer = Some empty_view,
      sectionSelect_value = ''summary'',
      editorUI_display = ''none'',
      actionsDiv_display = ''block'',
      statusDiv_text = ''Resume generated successfully!'',
      saveRegenBtn_disabled = False,
      saveRegenBtn_text = ''Save & Regenerate'',
      store = \<lparr>lastResumeData = Some [(''summary'', JStr ''Stored summary'')],
               lastViewUrl = Some ''http://localhost:8000/view/Acme/1/Pranay_Saggar_Resume.pdf'',
               lastStatus = Some ''Resume generated successfully!'',
               lastCompany = Some ''Acme''\<rparr>,
      alerts = [],
      requests = [],
      tabs = []\<rparr>"

text \<open>
  A state with the editor open on the summary, whose field the user has changed, after an
  earlier change of the skills that the change handler has already committed to the
  document.
\<close>

definition example_editing :: popup where
  "example_editing =
     example_popup
       \<lparr>currentEditingData :=
          Some [(''summary'', JStr ''Old summary''),
                (''skills'', JObj [(''Languages'', JStr ''Python, Go'')])],
        previousSection := Some ''summary'',
        formContainer := Some (empty_view\<lparr>ids := [(''edit_summary_text'', ''New summary'')]\<rparr>),
        editorUI_display := ''block'',
        actionsDiv_display := ''none''\<rparr>"

text \<open>
  A state with the editor open on a section the editor has no form for, whose raw text
  the user has left unfinished.
\<close>

definition example_unknown :: popup where
  "example_unknown =
     example_popup
       \<lparr>currentEditingData := Some [(''awards'', JArr [JStr ''Best paper''])],
        previousSection := Some ''awards'',
        formContainer := Some (empty_view\<lparr>ids := [(''edit_raw_json'', ''[oops'')]\<rparr>),
        sectionSelect_value := ''awards'',
        editorUI_display := ''block'',
        actionsDiv_display := ''none''\<rparr>"

section \<open>Basic facts\<close>

subsection \<open>Objects\<close>

lemma obj_get_obj_set: "obj_get (obj_set d k v) k' = (if k' = k then v else obj_get d k')"
  by (induction d) (auto simp: obj_get_def)

lemma map_of_obj_set: "map_of (obj_set d k v) = (map_of d)(k \<mapsto> v)"
  by (induction d) (auto simp: fun_eq_iff)

lemma keys_obj_set:
  "map fst (obj_set d k v) = (if k \<in> set (map fst d) then map fst d else map fst d @ [k])"
  by (induction d) auto

lemma distinct_obj_set: "distinct (map fst d) \<Longrightarrow> distinct (map fst (obj_set d k v))"
  by (simp add: keys_obj_set)

lemma obj_set_fresh: "k \<notin> set (map fst d) \<Longrightarrow> obj_set d k v = d @ [(k, v)]"
  by (induction d) auto

lemma lookup_text:
  assumes "is_text (obj_get kvs k)"
  shows "map_of kvs k = Some (JStr (the_text (obj_get kvs k)))"
  using assms by (cases "map_of kvs k"; cases "obj_get kvs k") (auto simp: obj_get_def)

lemma absent_key: "k \<notin> set (map fst kvs) \<Longrightarrow> obj_get kvs k = JUndefined"
  by (simp add: obj_get_def map_of_eq_None_iff [THEN iffD2])

lemma is_text_cases: "is_text x \<Longrightarrow> \<exists>s. x = JStr s"
  by (cases x) simp_all

lemma is_text_the_text: "is_text x \<Longrightarrow> x = JStr (the_text x)"
  by (cases x) simp_all

lemma those_map_Some: "(\<And>x. x \<in> set xs \<Longrightarrow> f x = Some (g x)) \<Longrightarrow> those (map f xs) = Some (map g xs)"
  by (induction xs) simp_all

lemma those_length: "those xs = Some ys \<Longrightarrow> length ys = length xs"
  by (induction xs arbitrary: ys) (auto split: option.splits)

lemma those_nth: "those xs = Some ys \<Longrightarrow> i < length xs \<Longrightarrow> xs ! i = Some (ys ! i)"
proof (induction xs arbitrary: ys i)
  case Nil
  then show ?case by simp
next
  case (Cons x xs)
  then show ?case by (cases i) (auto split: option.splits)
qed

lemma text_lookup:
  assumes "list_all (\<lambda>kv. is_text (snd kv)) d" and "map_of d k = Some x"
  shows "\<exists>s. x = JStr s"
proof -
  have "(k, x) \<in> set d"
    using assms(2) by (rule map_of_SomeD)
  then have "is_text x"
    using assms(1) by (auto simp: list_all_iff)
  then show ?thesis
    by (rule is_text_cases)
qed

lemma map_of_keyed: "map_of (map (\<lambda>k. (k, f k)) ks) k = (if k \<in> set ks then Some (f k) else None)"
  by (induction ks) auto

lemma map_of_map_snd:
  "map_of (map (\<lambda>p. (fst p, f (snd p))) xs) c = map_option f (map_of xs c)"
  by (induction xs) auto

lemma json_clone_defined: "defined_json v \<Longrightarrow> json_clone v = v"
proof (induction v)
  case (JArr xs)
  then have "\<forall>x\<in>set xs. x \<noteq> JUndefined \<and> json_clone x = x"
    by (auto simp: list_all_iff)
  then have "map (\<lambda>x. if x = JUndefined then JNull else json_clone x) xs = xs"
    by (auto intro!: map_idI)
  then show ?case by simp
next
  case (JObj kvs)
  then have "\<forall>kv\<in>set kvs. snd kv \<noteq> JUndefined \<and> json_clone (snd kv) = snd kv"
    by (auto simp: list_all_iff intro: snds.intros)
  then have "filter (\<lambda>(k, v). v \<noteq> JUndefined) kvs = kvs"
    and "map (\<lambda>(k, v). (k, json_clone v)) kvs = kvs"
    by (auto simp: filter_id_conv intro!: map_idI)
  then show ?case by simp
qed simp_all

lemma clone_doc_defined: "list_all (\<lambda>kv. defined_json (snd kv)) d \<Longrightarrow> clone_doc d = d"
  using json_clone_defined [of "JObj d"] by (simp add: clone_doc_def)


subsection \<open>Values read back from the markup\<close>

lemma attr_safe_value: "attr_safe s \<Longrightarrow> html_attr_value s = s"
  by (induction s) (auto simp: attr_safe_def html_attr_value_def)

lemma text_value_plain: "list_all (\<lambda>c. c \<noteq> CHR 0x26) s \<Longrightarrow> html_text_value s = s"
  by (induction s) auto

lemma text_value_escape:
  "list_all (\<lambda>c. c \<noteq> CHR 0x26) s \<Longrightarrow> html_text_value (escape_quot s) = s"
  by (induction s) auto

lemma text_safe_value: "text_safe s \<Longrightarrow> html_text_value s = s"
  by (rule text_value_plain) (auto simp: text_safe_def list_all_iff)

lemma text_safe_escape: "text_safe s \<Longrightarrow> html_text_value (escape_quot s) = s"
  by (rule text_value_escape) (auto simp: text_safe_def list_all_iff)

text \<open>
  The templates do not escape what they place in an attribute: a value with a double quote
  in it is cut there when read back. The round trip is therefore stated for texts that are
  \<open>attr_safe\<close>.
\<close>

lemma attr_value_cut_at_quote: "html_attr_value (''5'' @ [CHR 0x22] @ '' screen'') = ''5''"
  by (simp add: html_attr_value_def)

lemma or_text: "is_text x \<Longrightarrow> js_or x (JStr []) = JStr (the_text x)"
  by (cases x) (auto simp: js_or_def)

lemma or_text_alias: "is_text x \<Longrightarrow> js_or (js_or x JUndefined) (JStr []) = JStr (the_text x)"
  by (cases x) (auto simp: js_or_def)

lemma field_text: "attr_safe s \<Longrightarrow> field (c, JStr s) = Some (c, s)"
  by (simp add: field_def attr_safe_value)

subsection \<open>Rendering and parsing the lists\<close>

lemma render_items_length: "render_items s items = Some bs \<Longrightarrow> length bs = length items"
  by (induction items arbitrary: bs) (auto split: option.splits)

lemma render_items_nth:
  "render_items s items = Some bs \<Longrightarrow> i < length items \<Longrightarrow>
   renderItemBlock s (items ! i) = Some (bs ! i)"
proof (induction items arbitrary: bs i)
  case Nil
  then show ?case by simp
next
  case (Cons a items)
  then show ?case by (cases i) (auto split: option.splits)
qed

lemma list_sections_view:
  assumes "render_view P section (JArr items) = (v, False)"
      and "section = ''experience'' \<or> section = ''projects'' \<or> section = ''leadership''"
  shows "render_items section items = Some (item_blocks v)"
  using assms by (auto simp: render_view_def empty_view_def split: option.splits)

lemma parse_list_nth:
  assumes "section = ''experience'' \<or> section = ''projects'' \<or> section = ''leadership''"
  shows "parseEditor P section (Some v) doc = JArr (map (parse_item section) (item_blocks v))"
  using assms by (auto simp: parseEditor_def)

lemma bullet_rows_class: "bullet_rows bs = Some rows \<Longrightarrow> map_of rows k = None \<or> k = ''bullet-input''"
  by (induction bs arbitrary: rows) (auto split: option.splits)

lemma renderItemBlock_shape:
  assumes "renderItemBlock section (JObj kvs) = Some b"
  shows "\<exists>header rows. header_fields section kvs = Some header \<and> b = header @ rows \<and>
           (case obj_get kvs ''bullets'' of JArr bs \<Rightarrow> bullet_rows bs | _ \<Rightarrow> Some []) = Some rows"
  using assms by (auto simp: renderItemBlock_def split: option.splits)

lemma block_header_lookup:
  assumes "renderItemBlock section (JObj kvs) = Some b" and "k \<noteq> ''bullet-input''"
  shows "\<exists>header. header_fields section kvs = Some header \<and> map_of b k = map_of header k"
proof -
  obtain header rows where h: "header_fields section kvs = Some header"
    and b: "b = header @ rows"
    and rows: "(case obj_get kvs ''bullets'' of JArr bs \<Rightarrow> bullet_rows bs | _ \<Rightarrow> Some []) = Some rows"
    using renderItemBlock_shape [OF assms(1)] by blast
  have "map_of rows k = None"
    using rows assms(2) bullet_rows_class [of _ rows k] by (auto split: jsval.splits)
  then have "map_of b k = map_of header k"
    by (simp add: b map_add_def split: option.splits)
  then show ?thesis
    using h by blast
qed

lemma bullet_rows_texts:
  assumes "list_all is_text bs"
    and "list_all (\<lambda>b. case b of JStr s \<Rightarrow> text_safe s | _ \<Rightarrow> True) bs"
  shows "bullet_rows bs = Some (map (\<lambda>b. (''bullet-input'', the_text b)) bs)"
  using assms
proof (induction bs)
  case Nil
  then show ?case by simp
next
  case (Cons b bs)
  then obtain s where b: "b = JStr s"
    using is_text_cases by auto
  have "text_safe s"
    using Cons.prems(2) by (simp add: b)
  then have "html_text_value (if s \<noteq> [] then escape_quot s else []) = s"
    by (simp add: text_safe_escape)
  then show ?case
    using Cons by (simp add: b)
qed

lemma parse_bullets_rows:
  assumes "filter (\<lambda>e. fst e = ''bullet-input'') header = []"
    and "list_all is_text bs"
  shows "parse_bullets (header @ map (\<lambda>b. (''bullet-input'', the_text b)) bs) =
         drop_blank_bullets (JArr bs)"
proof -
  have "map JStr (filter (\<lambda>t. trim t \<noteq> []) (map the_text bs)) = filter nonblank bs"
    using assms(2)
  proof (induction bs)
    case Nil
    then show ?case by simp
  next
    case (Cons b bs)
    then obtain s where "b = JStr s"
      using is_text_cases by auto
    then show ?case
      using Cons by (simp add: nonblank_def)
  qed
  then show ?thesis
    using assms(1)
    by (simp add: parse_bullets_def drop_blank_bullets_def filter_map comp_def)
qed

lemma header_classes:
  "map fst (header_values section kvs) =
     (if section = ''experience'' then [''item-company'', ''item-role'', ''item-location'', ''item-dates'']
      else if section = ''leadership'' then [''item-org'', ''item-role'', ''item-location'', ''item-dates'']
      else [''item-name'', ''item-tech'', ''item-dates''])"
  by (simp add: header_values_def Let_def)

lemma those_field_lookup:
  "those (map field hv) = Some header \<Longrightarrow> map_of hv c = Some v \<Longrightarrow>
   \<exists>s. to_string v = Some s \<and> map_of header c = Some (html_attr_value s)"
proof (induction hv arbitrary: header)
  case Nil
  then show ?case by simp
next
  case (Cons cv hv)
  then show ?case
    by (cases cv) (auto simp: field_def split: option.splits if_splits)
qed

lemma rendered_header_field:
  assumes "renderItemBlock section (JObj kvs) = Some b"
    and "map_of (header_values section kvs) c = Some v"
    and "c \<noteq> ''bullet-input''"
  shows "\<exists>s. to_string v = Some s \<and> map_of b c = Some (html_attr_value s)"
proof -
  obtain header where "header_fields section kvs = Some header" "map_of b c = map_of header c"
    using block_header_lookup [OF assms(1,3)] by blast
  then show ?thesis
    using those_field_lookup [of "header_values section kvs" header c v] assms(2)
    by (simp add: header_fields_def)
qed

subsection \<open>The loops that fill an object\<close>

lemma parse_skills_fold:
  "foldl skills_step acc blocks =
   foldl (\<lambda>acc p. obj_set acc (fst p) (JStr (snd p))) acc (skill_pairs blocks)"
  by (induction blocks arbitrary: acc) (auto simp: skill_pairs_def skills_step_def split: option.splits)

lemma fold_set_keys:
  "map fst (foldl (\<lambda>acc p. obj_set acc (fst p) (f (snd p))) acc ps) =
   foldl (\<lambda>ks c. if c \<in> set ks then ks else ks @ [c]) (map fst acc) (map fst ps)"
  by (induction ps arbitrary: acc) (auto simp: keys_obj_set)

lemma first_occurrences:
  "foldl (\<lambda>ks c. if c \<in> set ks then ks else ks @ [c]) [] cs = rev (remdups (rev cs))"
proof (induction cs rule: rev_induct)
  case Nil
  then show ?case by simp
next
  case (snoc c cs)
  then show ?case by simp
qed

lemma fold_set_lookup:
  "map_of (foldl (\<lambda>acc p. obj_set acc (fst p) (f (snd p))) acc ps) =
   map_of acc ++ map_of (rev (map (\<lambda>p. (fst p, f (snd p))) ps))"
proof (induction ps arbitrary: acc)
  case Nil
  then show ?case by simp
next
  case (Cons p ps)
  show ?case
    by (auto simp: Cons.IH map_of_obj_set fun_eq_iff map_add_def split: option.splits)
qed

lemma fold_set_fresh:
  "distinct (map fst ps) \<Longrightarrow> set (map fst ps) \<inter> set (map fst acc) = {} \<Longrightarrow>
   foldl (\<lambda>acc p. obj_set acc (fst p) (f (snd p))) acc ps = acc @ map (\<lambda>p. (fst p, f (snd p))) ps"
proof (induction ps arbitrary: acc)
  case Nil
  then show ?case by simp
next
  case (Cons p ps)
  have fresh: "fst p \<notin> set (map fst acc)"
    using Cons.prems(2) by auto
  have "set (map fst ps) \<inter> set (map fst (acc @ [(fst p, f (snd p))])) = {}"
    using Cons.prems by auto
  then show ?case
    using Cons.prems(1) by (simp add: obj_set_fresh [OF fresh] Cons.IH)
qed

lemma contact_fold_distinct:
  "distinct (map fst acc) \<Longrightarrow> distinct (map fst (foldl contact_step acc inputs))"
  by (induction inputs arbitrary: acc) (simp_all add: contact_step_def distinct_obj_set)

lemma contact_fold_lookup:
  "distinct (map fst inputs) \<Longrightarrow>
   map_of (foldl contact_step acc inputs) k =
     (case map_of inputs k of
        Some s \<Rightarrow> if trim s = [] then map_of acc k else Some (JStr (trim s))
      | None \<Rightarrow> map_of acc k)"
proof (induction inputs arbitrary: acc)
  case Nil
  then show ?case by simp
next
  case (Cons i inputs)
  obtain k0 s0 where i: "i = (k0, s0)" by (cases i)
  have nk: "map_of inputs k0 = None"
    using Cons.prems by (auto simp: i map_of_eq_None_iff)
  have step: "contact_step acc (k0, s0) =
      (if trim s0 \<noteq> [] then obj_set acc k0 (JStr (trim s0)) else acc)"
    by (simp add: contact_step_def)
  show ?case
    using Cons.prems nk
    by (auto simp: Cons.IH i step map_of_obj_set split: option.splits)
qed


subsection \<open>The handlers\<close>

lemma parse_known_not_null:
  "section \<in> set known_sections \<Longrightarrow> parseEditor P section (Some v) doc \<noteq> JNull"
  by (auto simp: known_sections_def parseEditor_def split: option.splits)

lemma parse_no_container: "parseEditor P section None doc = JNull"
  by (simp add: parseEditor_def)

lemma obj_get_commit_other:
  "k \<noteq> section \<Longrightarrow> obj_get (commit P section fc doc) k = obj_get doc k"
  by (simp add: commit_def Let_def obj_get_obj_set)

lemma change_handler_doc:
  assumes "currentEditingData st = Some doc" and "previousSection st = Some a" and "a \<noteq> []"
  shows "currentEditingData (sectionSelect_change P st) = Some (commit P a (formContainer st) doc)"
    and "formContainer (sectionSelect_change P st) =
         fst (renderEditor P (sectionSelect_value st)
                (obj_get (commit P a (formContainer st) doc) (sectionSelect_value st))
                (formContainer st))"
    and "alerts (sectionSelect_change P st) = alerts st"
    and "store (sectionSelect_change P st) = store st"
    and "currentViewUrl (sectionSelect_change P st) = currentViewUrl st"
  using assms by (simp_all add: sectionSelect_change_def Let_def split: prod.splits)

lemma change_handler_frame:
  "store (sectionSelect_change P st) = store st"
  "currentViewUrl (sectionSelect_change P st) = currentViewUrl st"
  "alerts (sectionSelect_change P st) = alerts st"
  by (simp_all add: sectionSelect_change_def Let_def split: option.splits prod.splits)

lemma save_failure_frame:
  assumes "\<forall>u. outcome \<noteq> Response ''success'' u"
  shows "store (saveRegenBtn_click P outcome st) = store st"
    and "currentViewUrl (saveRegenBtn_click P outcome st) = currentViewUrl st"
    and "editorUI_display (saveRegenBtn_click P outcome st) = editorUI_display st"
  using assms
  by (auto simp: saveRegenBtn_click_def Let_def split: option.splits fetch_outcome.splits)

lemmas example_defs =
  example_editing_def example_popup_def example_json_def empty_view_def

subsection \<open>The round trip, section by section\<close>

lemma round_trip_summary:
  assumes "canonical ''summary'' V" and "markup_free ''summary'' V"
  shows "\<exists>v. render_view P ''summary'' V = (v, False) \<and>
             same_up_to ''summary'' V (parseEditor P ''summary'' (Some v) doc)"
proof -
  obtain s where V: "V = JStr s"
    using assms(1) by (cases V) (simp_all add: canonical_def)
  have t: "to_string (js_or V (JStr [])) = Some s"
    by (simp add: V js_or_def)
  then have "text_safe s"
    using assms(2) by (simp add: markup_free_def texts_hold_def text_holds_def)
  then have "html_text_value s = s"
    by (rule text_safe_value)
  then show ?thesis
    using t by (simp add: render_view_def parseEditor_def same_up_to_def empty_view_def V)
qed

lemma render_contact_texts:
  "(\<And>k. k \<in> set ks \<Longrightarrow> to_string (contact_value d k) = Some (f k) \<and> attr_safe (f k)) \<Longrightarrow>
   render_contact d ks = (map (\<lambda>k. (k, f k)) ks, False)"
  by (induction ks) (simp_all add: attr_safe_value)

lemma round_trip_contact:
  assumes "canonical ''contact'' V" and "markup_free ''contact'' V"
  shows "\<exists>v. render_view P ''contact'' V = (v, False) \<and>
             same_up_to ''contact'' V (parseEditor P ''contact'' (Some v) doc)"
proof -
  obtain d where V: "V = JObj d"
    using assms(1) by (cases V) (simp_all add: canonical_def)
  have dist: "distinct (map fst d)" and keys: "set (map fst d) \<subseteq> set contact_fields"
    and texts: "list_all (\<lambda>kv. is_text (snd kv)) d"
    using assms(1) by (simp_all add: canonical_def V)
  have safe: "\<And>k. k \<in> set contact_fields \<Longrightarrow> text_holds attr_safe (contact_value d k)"
    using assms(2) by (simp add: markup_free_def texts_hold_def V list_all_iff)
  have no_alias: "obj_get d ''linkedin'' = JUndefined" "obj_get d ''portfolio'' = JUndefined"
  proof -
    have "''linkedin'' \<notin> set (map fst d)" "''portfolio'' \<notin> set (map fst d)"
      using keys by (auto simp: contact_fields_def)
    then have "map_of d ''linkedin'' = None" "map_of d ''portfolio'' = None"
      by (simp_all add: map_of_eq_None_iff)
    then show "obj_get d ''linkedin'' = JUndefined" "obj_get d ''portfolio'' = JUndefined"
      by (simp_all add: obj_get_def)
  qed
  have cv: "contact_value d k = js_or (obj_get d k) (JStr [])" for k
    by (auto simp: contact_value_def no_alias js_or_def Let_def)
  define shown where "shown k = the_text (obj_get d k)" for k
  have val: "contact_value d k = JStr (shown k)" for k
  proof (cases "map_of d k")
    case None
    then show ?thesis by (simp add: cv shown_def obj_get_def js_or_def)
  next
    case (Some x)
    then obtain s where "x = JStr s"
      using text_lookup [OF texts] by blast
    then show ?thesis
      using Some by (simp add: cv shown_def obj_get_def js_or_def)
  qed
  have "to_string (contact_value d k) = Some (shown k) \<and> attr_safe (shown k)"
    if "k \<in> set contact_fields" for k
    using safe [OF that] by (simp add: val text_holds_def)
  then have rc: "render_contact d contact_fields = (map (\<lambda>k. (k, shown k)) contact_fields, False)"
    by (rule render_contact_texts)
  let ?inputs = "map (\<lambda>k. (k, shown k)) contact_fields"
  have r: "render_view P ''contact'' V = (empty_view\<lparr>contact_inputs := ?inputs\<rparr>, False)"
    by (simp add: render_view_def V rc)
  have p: "parseEditor P ''contact'' (Some (empty_view\<lparr>contact_inputs := ?inputs\<rparr>)) doc =
        JObj (foldl contact_step [] ?inputs)"
    by (simp add: parseEditor_def parse_contact_def)
  have d1: "distinct (map fst (foldl contact_step [] ?inputs))"
    by (rule contact_fold_distinct) simp
  have di: "distinct (map fst ?inputs)"
    by (simp add: comp_def contact_fields_def)
  have shown_text: "shown k = s" if "map_of d k = Some (JStr s)" for k s
    using that by (simp add: shown_def obj_get_def)
  have shown_none: "shown k = []" if "map_of d k = None" for k
    using that by (simp add: shown_def obj_get_def)
  have "map_of (foldl contact_step [] ?inputs) k = trimmed_contact d k" for k
  proof (cases "map_of d k")
    case None
    then show ?thesis
      using shown_none [OF None]
      by (simp add: contact_fold_lookup [OF di] map_of_keyed trimmed_contact_def trim_def)
  next
    case (Some x)
    then have "k \<in> set contact_fields"
      using keys by (force dest: map_of_SomeD)
    moreover obtain s where "x = JStr s"
      using text_lookup [OF texts Some] by blast
    ultimately show ?thesis
      using Some shown_text [of k s]
      by (simp add: contact_fold_lookup [OF di] map_of_keyed trimmed_contact_def)
  qed
  then have "map_of (foldl contact_step [] ?inputs) = trimmed_contact d"
    by (simp add: fun_eq_iff)
  then show ?thesis
    using r p d1 by (simp add: same_up_to_def V)
qed

lemma round_trip_skills:
  assumes "canonical ''skills'' V" and "markup_free ''skills'' V"
  shows "\<exists>v. render_view P ''skills'' V = (v, False) \<and>
             same_up_to ''skills'' V (parseEditor P ''skills'' (Some v) doc)"
proof -
  obtain d where V: "V = JObj d"
    using assms(1) by (cases V) (simp_all add: canonical_def)
  have dist: "distinct (map fst d)"
    and texts: "list_all (\<lambda>kv. is_text (snd kv)) d"
    using assms(1) by (simp_all add: canonical_def V list_all_iff)
  have safe: "\<And>kv. kv \<in> set d \<Longrightarrow> attr_safe (fst kv) \<and> text_holds text_safe (snd kv)"
    using assms(2) by (simp add: markup_free_def texts_hold_def V list_all_iff)
  let ?block = "\<lambda>kv. [(''skill-category-input'', fst kv), (''skill-values-input'', the_text (snd kv))]"
  have "skills_block kv = Some (?block kv)" if "kv \<in> set d" for kv
  proof -
    have "is_text (snd kv)"
      using that texts by (simp add: list_all_iff)
    then obtain s where s: "snd kv = JStr s"
      using is_text_cases by blast
    then have "attr_safe (fst kv)" "text_safe s"
      using safe [OF that] by (simp_all add: text_holds_def)
    then show ?thesis
      by (simp add: skills_block_def s attr_safe_value text_safe_value)
  qed
  then have blocks: "those (map skills_block d) = Some (map ?block d)"
    by (rule those_map_Some)
  have r: "render_view P ''skills'' V = (empty_view\<lparr>item_blocks := map ?block d\<rparr>, False)"
    by (simp add: render_view_def V blocks)
  have pairs: "skill_pairs (map ?block d) = map (\<lambda>kv. (fst kv, the_text (snd kv))) d"
    by (induction d) (simp_all add: skill_pairs_def)
  have restored: "map (\<lambda>x. (fst x, JStr (the_text (snd x)))) d = d"
  proof -
    have "\<And>kv. kv \<in> set d \<Longrightarrow> (fst kv, JStr (the_text (snd kv))) = kv"
    proof -
      fix kv assume "kv \<in> set d"
      then have "is_text (snd kv)"
        using texts by (simp add: list_all_iff)
      then obtain s where "snd kv = JStr s"
        using is_text_cases by blast
      then show "(fst kv, JStr (the_text (snd kv))) = kv"
        by (cases kv) simp
    qed
    then show ?thesis
      by (rule map_idI)
  qed
  have "parse_skills (map ?block d) = d"
    using dist
    by (simp add: parse_skills_def parse_skills_fold pairs fold_set_fresh comp_def restored)
  then show ?thesis
    using r by (simp add: parseEditor_def same_up_to_def V)
qed

lemma canonical_block:
  assumes "header_fields section kvs = Some header"
    and "filter (\<lambda>e. fst e = ''bullet-input'') header = []"
    and "obj_get kvs ''bullets'' = JArr bs"
    and "list_all is_text bs"
    and "list_all (\<lambda>b. case b of JStr s \<Rightarrow> text_safe s | _ \<Rightarrow> True) bs"
  shows "renderItemBlock section (JObj kvs) =
           Some (header @ map (\<lambda>b. (''bullet-input'', the_text b)) bs)"
    and "parse_bullets (header @ map (\<lambda>b. (''bullet-input'', the_text b)) bs) =
           drop_blank_bullets (obj_get kvs ''bullets'')"
proof -
  have rows: "bullet_rows bs = Some (map (\<lambda>b. (''bullet-input'', the_text b)) bs)"
    using assms(4,5) by (rule bullet_rows_texts)
  show "renderItemBlock section (JObj kvs) =
           Some (header @ map (\<lambda>b. (''bullet-input'', the_text b)) bs)"
    by (simp add: renderItemBlock_def assms(1,3) rows)
  show "parse_bullets (header @ map (\<lambda>b. (''bullet-input'', the_text b)) bs) =
           drop_blank_bullets (obj_get kvs ''bullets'')"
    using parse_bullets_rows [OF assms(2,4)] by (simp add: assms(3))
qed

lemma round_trip_entry:
  assumes sec: "section = ''experience'' \<or> section = ''projects'' \<or> section = ''leadership''"
    and can: "canonical_entry section e"
    and safe: "item_texts_hold attr_safe text_safe section e"
  shows "\<exists>b. renderItemBlock section e = Some b \<and> same_entry e (parse_item section b)"
proof -
  obtain kvs where e: "e = JObj kvs"
    using can by (cases e) (simp_all add: canonical_entry_def)
  obtain bs where bul: "obj_get kvs ''bullets'' = JArr bs" and bs: "list_all is_text bs"
    using can by (auto simp: canonical_entry_def e split: jsval.splits)
  have keys: "set (map fst kvs) = set (''bullets'' # entry_keys section)"
    and texts: "\<And>k. k \<in> set (entry_keys section) \<Longrightarrow> is_text (obj_get kvs k)"
    using can by (simp_all add: canonical_entry_def e list_all_iff)
  have attr: "list_all (\<lambda>cv. text_holds attr_safe (snd cv)) (header_values section kvs)"
    and bsafe: "list_all (\<lambda>b. case b of JStr s \<Rightarrow> text_safe s | _ \<Rightarrow> True) bs"
    using safe by (simp_all add: item_texts_hold_def e bul)
  have other: "\<And>k. k \<notin> set (''bullets'' # entry_keys section) \<Longrightarrow> map_of kvs k = None"
    using keys by (simp add: map_of_eq_None_iff)
  consider (exp) "section = ''experience''" | (lead) "section = ''leadership''"
    | (proj) "section = ''projects''"
    using sec by blast
  then show ?thesis
  proof cases
    case exp
    have k: "entry_keys section = [''company'', ''role'', ''location'', ''dates'']"
      by (simp add: entry_keys_def exp)
    have t: "is_text (obj_get kvs ''company'')" "is_text (obj_get kvs ''role'')"
      "is_text (obj_get kvs ''location'')" "is_text (obj_get kvs ''dates'')"
      using texts by (simp_all add: k)
    have u: "obj_get kvs ''title'' = JUndefined" "obj_get kvs ''date'' = JUndefined"
      using keys by (simp_all add: absent_key k)
    have hv: "header_values section kvs =
        [(''item-company'', JStr (the_text (obj_get kvs ''company''))),
         (''item-role'', JStr (the_text (obj_get kvs ''role''))),
         (''item-location'', JStr (the_text (obj_get kvs ''location''))),
         (''item-dates'', JStr (the_text (obj_get kvs ''dates'')))]"
      by (simp add: header_values_def exp u or_text or_text_alias t)
    have a: "attr_safe (the_text (obj_get kvs ''company''))"
      "attr_safe (the_text (obj_get kvs ''role''))"
      "attr_safe (the_text (obj_get kvs ''location''))"
      "attr_safe (the_text (obj_get kvs ''dates''))"
      using attr by (simp_all add: hv text_holds_def)
    let ?header = "[(''item-company'', the_text (obj_get kvs ''company'')),
         (''item-role'', the_text (obj_get kvs ''role'')),
         (''item-location'', the_text (obj_get kvs ''location'')),
         (''item-dates'', the_text (obj_get kvs ''dates''))]"
    let ?b = "?header @ map (\<lambda>b. (''bullet-input'', the_text b)) bs"
    have h: "header_fields section kvs = Some ?header"
      by (simp add: header_fields_def hv field_text a)
    have nb: "filter (\<lambda>e. fst e = ''bullet-input'') ?header = []"
      by simp
    note blk = canonical_block [OF h nb bul bs bsafe]
    have p: "parse_item section ?b =
        JObj [(''company'', JStr (the_text (obj_get kvs ''company''))),
              (''role'', JStr (the_text (obj_get kvs ''role''))),
              (''dates'', JStr (the_text (obj_get kvs ''dates''))),
              (''location'', JStr (the_text (obj_get kvs ''location''))),
              (''bullets'', drop_blank_bullets (obj_get kvs ''bullets''))]"
      using blk(2) by (simp add: parse_item_def exp getVal_def)
    have "map_of [(''company'', JStr (the_text (obj_get kvs ''company''))),
              (''role'', JStr (the_text (obj_get kvs ''role''))),
              (''dates'', JStr (the_text (obj_get kvs ''dates''))),
              (''location'', JStr (the_text (obj_get kvs ''location''))),
              (''bullets'', drop_blank_bullets (obj_get kvs ''bullets''))] x
          = ((map_of kvs)(''bullets'' \<mapsto> drop_blank_bullets (obj_get kvs ''bullets''))) x" for x
      using lookup_text [OF t(1)] lookup_text [OF t(2)] lookup_text [OF t(3)] lookup_text [OF t(4)]
        other [of x]
      by (simp add: k)
    then have "same_entry e (parse_item section ?b)"
      unfolding p by (simp add: same_entry_def e fun_eq_iff)
    then show ?thesis
      using blk(1) e by blast
  next
    case lead
    have k: "entry_keys section = [''organization'', ''role'', ''location'', ''dates'']"
      by (simp add: entry_keys_def lead)
    have t: "is_text (obj_get kvs ''organization'')" "is_text (obj_get kvs ''role'')"
      "is_text (obj_get kvs ''location'')" "is_text (obj_get kvs ''dates'')"
      using texts by (simp_all add: k)
    have hv: "header_values section kvs =
        [(''item-org'', JStr (the_text (obj_get kvs ''organization''))),
         (''item-role'', JStr (the_text (obj_get kvs ''role''))),
         (''item-location'', JStr (the_text (obj_get kvs ''location''))),
         (''item-dates'', JStr (the_text (obj_get kvs ''dates'')))]"
      by (simp add: header_values_def lead or_text t)
    have a: "attr_safe (the_text (obj_get kvs ''organization''))"
      "attr_safe (the_text (obj_get kvs ''role''))"
      "attr_safe (the_text (obj_get kvs ''location''))"
      "attr_safe (the_text (obj_get kvs ''dates''))"
      using attr by (simp_all add: hv text_holds_def)
    let ?header = "[(''item-org'', the_text (obj_get kvs ''organization'')),
         (''item-role'', the_text (obj_get kvs ''role'')),
         (''item-location'', the_text (obj_get kvs ''location'')),
         (''item-dates'', the_text (obj_get kvs ''dates''))]"
    let ?b = "?header @ map (\<lambda>b. (''bullet-input'', the_text b)) bs"
    have h: "header_fields section kvs = Some ?header"
      by (simp add: header_fields_def hv field_text a)
    have nb: "filter (\<lambda>e. fst e = ''bullet-input'') ?header = []"
      by simp
    note blk = canonical_block [OF h nb bul bs bsafe]
    have p: "parse_item section ?b =
        JObj [(''organization'', JStr (the_text (obj_get kvs ''organization''))),
              (''role'', JStr (the_text (obj_get kvs ''role''))),
              (''dates'', JStr (the_text (obj_get kvs ''dates''))),
              (''location'', JStr (the_text (obj_get kvs ''location''))),
              (''bullets'', drop_blank_bullets (obj_get kvs ''bullets''))]"
      using blk(2) by (simp add: parse_item_def lead getVal_def)
    have "map_of [(''organization'', JStr (the_text (obj_get kvs ''organization''))),
              (''role'', JStr (the_text (obj_get kvs ''role''))),
              (''dates'', JStr (the_text (obj_get kvs ''dates''))),
              (''location'', JStr (the_text (obj_get kvs ''location''))),
              (''bullets'', drop_blank_bullets (obj_get kvs ''bullets''))] x
          = ((map_of kvs)(''bullets'' \<mapsto> drop_blank_bullets (obj_get kvs ''bullets''))) x" for x
      using lookup_text [OF t(1)] lookup_text [OF t(2)] lookup_text [OF t(3)] lookup_text [OF t(4)]
        other [of x]
      by (simp add: k)
    then have "same_entry e (parse_item section ?b)"
      unfolding p by (simp add: same_entry_def e fun_eq_iff)
    then show ?thesis
      using blk(1) e by blast
  next
    case proj
    have k: "entry_keys section = [''name'', ''tech'', ''dates'']"
      by (simp add: entry_keys_def proj)
    have t: "is_text (obj_get kvs ''name'')" "is_text (obj_get kvs ''tech'')"
      "is_text (obj_get kvs ''dates'')"
      using texts by (simp_all add: k)
    have u: "obj_get kvs ''date'' = JUndefined"
      using keys by (simp_all add: absent_key k)
    have hv: "header_values section kvs =
        [(''item-name'', JStr (the_text (obj_get kvs ''name''))),
         (''item-tech'', JStr (the_text (obj_get kvs ''tech''))),
         (''item-dates'', JStr (the_text (obj_get kvs ''dates'')))]"
      by (simp add: header_values_def proj u or_text or_text_alias t)
    have a: "attr_safe (the_text (obj_get kvs ''name''))"
      "attr_safe (the_text (obj_get kvs ''tech''))"
      "attr_safe (the_text (obj_get kvs ''dates''))"
      using attr by (simp_all add: hv text_holds_def)
    let ?header = "[(''item-name'', the_text (obj_get kvs ''name'')),
         (''item-tech'', the_text (obj_get kvs ''tech'')),
         (''item-dates'', the_text (obj_get kvs ''dates''))]"
    let ?b = "?header @ map (\<lambda>b. (''bullet-input'', the_text b)) bs"
    have h: "header_fields section kvs = Some ?header"
      by (simp add: header_fields_def hv field_text a)
    have nb: "filter (\<lambda>e. fst e = ''bullet-input'') ?header = []"
      by simp
    note blk = canonical_block [OF h nb bul bs bsafe]
    have p: "parse_item section ?b =
        JObj [(''name'', JStr (the_text (obj_get kvs ''name''))),
              (''tech'', JStr (the_text (obj_get kvs ''tech''))),
              (''dates'', JStr (the_text (obj_get kvs ''dates''))),
              (''bullets'', drop_blank_bullets (obj_get kvs ''bullets''))]"
      using blk(2) by (simp add: parse_item_def proj getVal_def)
    have "map_of [(''name'', JStr (the_text (obj_get kvs ''name''))),
              (''tech'', JStr (the_text (obj_get kvs ''tech''))),
              (''dates'', JStr (the_text (obj_get kvs ''dates''))),
              (''bullets'', drop_blank_bullets (obj_get kvs ''bullets''))] x
          = ((map_of kvs)(''bullets'' \<mapsto> drop_blank_bullets (obj_get kvs ''bullets''))) x" for x
      using lookup_text [OF t(1)] lookup_text [OF t(2)] lookup_text [OF t(3)] other [of x]
      by (simp add: k)
    then have "same_entry e (parse_item section ?b)"
      unfolding p by (simp add: same_entry_def e fun_eq_iff)
    then show ?thesis
      using blk(1) e by blast
  qed
qed

lemma round_trip_items:
  assumes "section = ''experience'' \<or> section = ''projects'' \<or> section = ''leadership''"
    and "list_all (canonical_entry section) es"
    and "list_all (item_texts_hold attr_safe text_safe section) es"
  shows "\<exists>bs. render_items section es = Some bs \<and>
              list_all2 same_entry es (map (parse_item section) bs)"
  using assms(2,3)
proof (induction es)
  case Nil
  then show ?case by simp
next
  case (Cons e es)
  obtain b where "renderItemBlock section e = Some b" "same_entry e (parse_item section b)"
    using round_trip_entry [OF assms(1), of e] Cons.prems by auto
  moreover obtain bs where "render_items section es = Some bs"
    "list_all2 same_entry es (map (parse_item section) bs)"
    using Cons by auto
  ultimately show ?case by simp
qed

lemma round_trip_list:
  assumes "section = ''experience'' \<or> section = ''projects'' \<or> section = ''leadership''"
    and "canonical section V" and "markup_free section V"
  shows "\<exists>v. render_view P section V = (v, False) \<and>
             same_up_to section V (parseEditor P section (Some v) doc)"
proof -
  have ns: "section \<noteq> ''summary''" "section \<noteq> ''contact''" "section \<noteq> ''skills''"
    using assms(1) by auto
  obtain es where V: "V = JArr es"
    using assms(2) ns by (cases V) (simp_all add: canonical_def)
  have "list_all (canonical_entry section) es"
    "list_all (item_texts_hold attr_safe text_safe section) es"
    using assms(2,3) ns by (simp_all add: canonical_def markup_free_def texts_hold_def V)
  then obtain bs where bs: "render_items section es = Some bs"
    "list_all2 same_entry es (map (parse_item section) bs)"
    using round_trip_items [OF assms(1)] by blast
  have "render_view P section V = (empty_view\<lparr>item_blocks := bs\<rparr>, False)"
    using assms(1) ns by (simp add: render_view_def V bs(1))
  moreover have "parseEditor P section (Some (empty_view\<lparr>item_blocks := bs\<rparr>)) doc =
      JArr (map (parse_item section) bs)"
    using assms(1) by (simp add: parse_list_nth)
  ultimately show ?thesis
    using assms(1) ns bs(2) by (simp add: same_up_to_def V)
qed

section \<open>Properties of the editor\<close>

text \<open>
  Claim C1, as stated, fails: beside leaving out the empty fields, the contact branch of
  \<^verbatim>\<open>parseEditor\<close> trims the text of the fields it keeps. A location with a leading blank
  comes back without it, although the field is not empty after trimming.
\<close>

theorem round_trip_contact_counterexample:
  "render_view example_json ''contact'' (JObj [(''location'', JStr '' NYC'')])
   = (\<lparr>ids = [],
       contact_inputs = [(''location'', '' NYC''), (''email'', []), (''phone'', []),
                         (''linkedin_url'', []), (''portfolio_url'', []), (''github'', [])],
       item_blocks = []\<rparr>, False)
   \<and> parseEditor example_json ''contact''
       (Some \<lparr>ids = [],
              contact_inputs = [(''location'', '' NYC''), (''email'', []), (''phone'', []),
                                (''linkedin_url'', []), (''portfolio_url'', []), (''github'', [])],
              item_blocks = []\<rparr>) []
     = JObj [(''location'', JStr ''NYC'')]
   \<and> map_of [(''location'', JStr ''NYC'')] ''location'' \<noteq>
       omitting_empty_contact [(''location'', JStr '' NYC'')] ''location''"
  by (simp add: render_view_def contact_fields_def contact_value_def obj_get_def js_or_def
      html_attr_value_def empty_view_def parseEditor_def parse_contact_def contact_step_def
      trim_def is_space_def omitting_empty_contact_def)

text \<open>
  Claim C1, amended. For each known section and each canonical value of its shape whose
  texts are free of markup, \<^verbatim>\<open>renderEditor\<close> renders the value without a \<^verbatim>\<open>TypeError\<close>, and
  parsing the rendered view gives the value back up to three deviations: a contact field
  that is empty after trimming is left out, the text of every other contact field is
  trimmed, and the blank texts are dropped from every \<^verbatim>\<open>bullets\<close> list. Summary and skills
  come back as they were; objects are compared as mappings.
\<close>

theorem render_parse_round_trip:
  assumes "section \<in> set known_sections"
    and "canonical section V"
    and "markup_free section V"
  shows "\<exists>v. render_view P section V = (v, False) \<and>
             same_up_to section V (parseEditor P section (Some v) doc)"
proof (cases "section = ''summary''")
  case True
  then show ?thesis using assms(2,3) round_trip_summary by simp
next
  case n1: False
  show ?thesis
  proof (cases "section = ''contact''")
    case True
    then show ?thesis using assms(2,3) round_trip_contact by simp
  next
    case n2: False
    show ?thesis
    proof (cases "section = ''skills''")
      case True
      then show ?thesis using assms(2,3) round_trip_skills by simp
    next
      case n3: False
      have "section = ''experience'' \<or> section = ''projects'' \<or> section = ''leadership''"
        using assms(1) n1 n2 n3 by (simp add: known_sections_def)
      then show ?thesis using assms(2,3) by (rule round_trip_list)
    qed
  qed
qed

theorem render_parse_round_trip_witness:
  "''experience'' \<in> set known_sections
   \<and> canonical ''experience''
       (JArr [JObj [(''company'', JStr ''Acme''), (''role'', JStr ''Engineer''),
                    (''location'', JStr ''New York, NY''), (''dates'', JStr ''2020 - 2024''),
                    (''bullets'', JArr [JStr [], JStr ''Led a team of 5''])]])
   \<and> markup_free ''experience''
       (JArr [JObj [(''company'', JStr ''Acme''), (''role'', JStr ''Engineer''),
                    (''location'', JStr ''New York, NY''), (''dates'', JStr ''2020 - 2024''),
                    (''bullets'', JArr [JStr [], JStr ''Led a team of 5''])]])
   \<and> render_view example_json ''experience''
       (JArr [JObj [(''company'', JStr ''Acme''), (''role'', JStr ''Engineer''),
                    (''location'', JStr ''New York, NY''), (''dates'', JStr ''2020 - 2024''),
                    (''bullets'', JArr [JStr [], JStr ''Led a team of 5''])]])
     = (\<lparr>ids = [], contact_inputs = [],
         item_blocks = [[(''item-company'', ''Acme''), (''item-role'', ''Engineer''),
                         (''item-location'', ''New York, NY''),
                         (''item-dates'', ''2020 - 2024''),
                         (''bullet-input'', []), (''bullet-input'', ''Led a team of 5'')]]\<rparr>, False)
   \<and> parseEditor example_json ''experience''
       (Some \<lparr>ids = [], contact_inputs = [],
              item_blocks = [[(''item-company'', ''Acme''), (''item-role'', ''Engineer''),
                              (''item-location'', ''New York, NY''),
                              (''item-dates'', ''2020 - 2024''),
                              (''bullet-input'', []), (''bullet-input'', ''Led a team of 5'')]]\<rparr>) []
     = JArr [JObj [(''company'', JStr ''Acme''), (''role'', JStr ''Engineer''),
                   (''dates'', JStr ''2020 - 2024''), (''location'', JStr ''New York, NY''),
                   (''bullets'', JArr [JStr ''Led a team of 5''])]]"
proof -
  let ?V = "JArr [JObj [(''company'', JStr ''Acme''), (''role'', JStr ''Engineer''),
                    (''location'', JStr ''New York, NY''), (''dates'', JStr ''2020 - 2024''),
                    (''bullets'', JArr [JStr [], JStr ''Led a team of 5''])]]"
  have k: "''experience'' \<in> set known_sections"
    by (simp add: known_sections_def)
  have c: "canonical ''experience'' ?V"
    by (auto simp: canonical_def canonical_entry_def entry_keys_def obj_get_def)
  have m: "markup_free ''experience'' ?V"
    by (simp add: markup_free_def texts_hold_def item_texts_hold_def header_values_def
        text_holds_def obj_get_def js_or_def attr_safe_def text_safe_def)
  have r: "render_view example_json ''experience'' ?V
     = (\<lparr>ids = [], contact_inputs = [],
         item_blocks = [[(''item-company'', ''Acme''), (''item-role'', ''Engineer''),
                         (''item-location'', ''New York, NY''),
                         (''item-dates'', ''2020 - 2024''),
                         (''bullet-input'', []), (''bullet-input'', ''Led a team of 5'')]]\<rparr>, False)"
    by (simp add: render_view_def renderItemBlock_def header_fields_def header_values_def
        obj_get_def js_or_def field_def html_attr_value_def empty_view_def)
  have p: "parseEditor example_json ''experience''
       (Some \<lparr>ids = [], contact_inputs = [],
              item_blocks = [[(''item-company'', ''Acme''), (''item-role'', ''Engineer''),
                              (''item-location'', ''New York, NY''),
                              (''item-dates'', ''2020 - 2024''),
                              (''bullet-input'', []), (''bullet-input'', ''Led a team of 5'')]]\<rparr>) []
     = JArr [JObj [(''company'', JStr ''Acme''), (''role'', JStr ''Engineer''),
                   (''dates'', JStr ''2020 - 2024''), (''location'', JStr ''New York, NY''),
                   (''bullets'', JArr [JStr ''Led a team of 5''])]]"
    by (simp add: parseEditor_def parse_item_def getVal_def parse_bullets_def trim_def
        is_space_def)
  show ?thesis
    using render_parse_round_trip [OF k c m, of example_json "[]"] k c m r p by simp
qed

text \<open>
  Claim C2. While a session is open on section \<open>a\<close>, choosing section \<open>b\<close> parses the view
  of \<open>a\<close>; the result, unless it is \<^verbatim>\<open>null\<close>, is assigned to the document at key \<open>a\<close>, and
  then \<open>b\<close> is rendered from the document so updated, whatever the result of the parse was.
\<close>

theorem navigation_commits_then_renders:
  assumes "currentEditingData st = Some doc"
    and "previousSection st = Some a"
    and "a \<noteq> []"
  shows "currentEditingData (navigate P b st) =
           Some (if parseEditor P a (formContainer st) doc \<noteq> JNull
                 then obj_set doc a (parseEditor P a (formContainer st) doc)
                 else doc)
         \<and> formContainer (navigate P b st) =
           fst (renderEditor P b
                  (obj_get (if parseEditor P a (formContainer st) doc \<noteq> JNull
                            then obj_set doc a (parseEditor P a (formContainer st) doc)
                            else doc) b)
                  (formContainer st))"
  using assms change_handler_doc(1,2) [of "st\<lparr>sectionSelect_value := b\<rparr>" doc a P]
  by (simp add: navigate_def commit_def Let_def)


theorem navigation_commits_then_renders_witness:
  "currentEditingData example_editing =
     Some [(''summary'', JStr ''Old summary''),
           (''skills'', JObj [(''Languages'', JStr ''Python, Go'')])]
   \<and> previousSection example_editing = Some ''summary''
   \<and> currentEditingData (navigate example_json ''skills'' example_editing) =
     Some [(''summary'', JStr ''New summary''),
           (''skills'', JObj [(''Languages'', JStr ''Python, Go'')])]
   \<and> formContainer (navigate example_json ''skills'' example_editing) =
     Some \<lparr>ids = [], contact_inputs = [],
            item_blocks = [[(''skill-category-input'', ''Languages''),
                            (''skill-values-input'', ''Python, Go'')]]\<rparr>"
proof -
  have d: "currentEditingData example_editing =
     Some [(''summary'', JStr ''Old summary''),
           (''skills'', JObj [(''Languages'', JStr ''Python, Go'')])]"
    and p: "previousSection example_editing = Some ''summary''"
    by (simp_all add: example_defs)
  have f: "formContainer example_editing =
     Some \<lparr>ids = [(''edit_summary_text'', ''New summary'')], contact_inputs = [], item_blocks = []\<rparr>"
    by (simp add: example_defs)
  show ?thesis
    using navigation_commits_then_renders [OF d p, of example_json "''skills''"] d p
    by (simp add: f parseEditor_def renderEditor_def render_view_def skills_block_def
        obj_get_def empty_view_def html_attr_value_def)
qed

text \<open>
  Claim C3, as stated, fails: the cancel handler only hides the editor. The document in
  memory stays, so the next click on the edit button does not copy the stored snapshot;
  it goes on with the kept document (and its change event commits the view that was open
  at the time of the cancel).
\<close>

theorem cancel_discards_counterexample:
  "currentEditingData (cancelEditBtn_click example_editing) =
     Some [(''summary'', JStr ''Old summary''),
           (''skills'', JObj [(''Languages'', JStr ''Python, Go'')])]
   \<and> lastResumeData (store (cancelEditBtn_click example_editing)) =
     Some [(''summary'', JStr ''Stored summary'')]
   \<and> currentEditingData (editBtn_click example_json (cancelEditBtn_click example_editing)) =
     Some [(''summary'', JStr ''New summary''),
           (''skills'', JObj [(''Languages'', JStr ''Python, Go'')])]
   \<and> currentEditingData (editBtn_click example_json (cancelEditBtn_click example_editing)) \<noteq>
     Some (clone_doc [(''summary'', JStr ''Stored summary'')])"
proof -
  let ?doc = "[(''summary'', JStr ''Old summary''),
               (''skills'', JObj [(''Languages'', JStr ''Python, Go'')])]"
  let ?st = "cancelEditBtn_click example_editing"
  have d: "currentEditingData ?st = Some ?doc"
    and p: "previousSection ?st = Some ''summary''"
    and f: "formContainer ?st = Some (empty_view\<lparr>ids := [(''edit_summary_text'', ''New summary'')]\<rparr>)"
    and s: "lastResumeData (store ?st) = Some [(''summary'', JStr ''Stored summary'')]"
    by (simp_all add: example_editing_def example_popup_def cancelEditBtn_click_def)
  have "editBtn_click example_json ?st =
        sectionSelect_change example_json
          (?st\<lparr>editorUI_display := ''block'', actionsDiv_display := ''none''\<rparr>)"
    by (simp add: editBtn_click_def d)
  then have "currentEditingData (editBtn_click example_json ?st) =
        Some (commit example_json ''summary'' (formContainer ?st) ?doc)"
    using change_handler_doc(1)
      [of "?st\<lparr>editorUI_display := ''block'', actionsDiv_display := ''none''\<rparr>" ?doc
        "''summary''" example_json]
    by (simp add: d p)
  then have e: "currentEditingData (editBtn_click example_json ?st) =
        Some [(''summary'', JStr ''New summary''),
              (''skills'', JObj [(''Languages'', JStr ''Python, Go'')])]"
    by (simp add: f commit_def parseEditor_def empty_view_def)
  show ?thesis
    by (simp add: d s e clone_doc_def)
qed

text \<open>
  Claim C3, amended. Cancelling leaves the stored snapshot, the artifact reference, the
  document in memory, the tracker of the active section and the form untouched, so it
  commits nothing; the next click on the edit button reads no snapshot: it is the change
  handler run on the kept state, and it leaves the storage as it is.
\<close>

theorem cancel_keeps_document:
  assumes "currentEditingData st = Some doc"
  shows "store (cancelEditBtn_click st) = store st
       \<and> currentViewUrl (cancelEditBtn_click st) = currentViewUrl st
       \<and> currentEditingData (cancelEditBtn_click st) = Some doc
       \<and> previousSection (cancelEditBtn_click st) = previousSection st
       \<and> formContainer (cancelEditBtn_click st) = formContainer st
       \<and> editBtn_click P (cancelEditBtn_click st) =
           sectionSelect_change P (st\<lparr>editorUI_display := ''block'', actionsDiv_display := ''none''\<rparr>)
       \<and> store (editBtn_click P (cancelEditBtn_click st)) = store st"
  using assms
  by (simp add: cancelEditBtn_click_def editBtn_click_def change_handler_frame)

theorem cancel_keeps_document_witness:
  "currentEditingData example_editing =
     Some [(''summary'', JStr ''Old summary''),
           (''skills'', JObj [(''Languages'', JStr ''Python, Go'')])]
   \<and> store (cancelEditBtn_click example_editing) = store example_editing
   \<and> currentEditingData (cancelEditBtn_click example_editing) =
     Some [(''summary'', JStr ''Old summary''),
           (''skills'', JObj [(''Languages'', JStr ''Python, Go'')])]
   \<and> store (editBtn_click example_json (cancelEditBtn_click example_editing)) =
     store example_editing"
proof -
  have d: "currentEditingData example_editing =
     Some [(''summary'', JStr ''Old summary''),
           (''skills'', JObj [(''Languages'', JStr ''Python, Go'')])]"
    by (simp add: example_defs)
  show ?thesis
    using cancel_keeps_document [OF d, of example_json] d by blast
qed

text \<open>
  Claim C4. When the request succeeds, the save handler writes to the storage the new
  \<^verbatim>\<open>lastViewUrl\<close>, as \<^verbatim>\<open>lastResumeData\<close> the whole document of the session (the section on
  display committed, every other key as it was, so with all that earlier changes of
  section committed) and the \<^verbatim>\<open>lastStatus\<close> text, and nothing else. What is stored is the
  JSON form of the document, which is the document itself when it holds no \<^verbatim>\<open>undefined\<close>.
\<close>

theorem save_success_persists_document:
  assumes "currentEditingData st = Some doc"
    and "doc' = (if parseEditor P (sectionSelect_value st) (formContainer st) doc \<noteq> JNull
                 then obj_set doc (sectionSelect_value st)
                        (parseEditor P (sectionSelect_value st) (formContainer st) doc)
                 else doc)"
  shows "store (saveRegenBtn_click P (Response ''success'' url) st) =
           (store st)\<lparr>lastViewUrl := Some url,
                       lastResumeData := Some (clone_doc doc'),
                       lastStatus := Some ''Resume updated.''\<rparr>
       \<and> currentViewUrl (saveRegenBtn_click P (Response ''success'' url) st) = url
       \<and> currentEditingData (saveRegenBtn_click P (Response ''success'' url) st) = Some doc'
       \<and> (\<forall>k. k \<noteq> sectionSelect_value st \<longrightarrow> obj_get doc' k = obj_get doc k)
       \<and> (list_all (\<lambda>kv. defined_json (snd kv)) doc' \<longrightarrow> clone_doc doc' = doc')"
proof -
  have c: "commit P (sectionSelect_value st) (formContainer st) doc = doc'"
    by (simp add: commit_def assms(2))
  have "\<forall>k. k \<noteq> sectionSelect_value st \<longrightarrow> obj_get doc' k = obj_get doc k"
    using obj_get_commit_other [of _ "sectionSelect_value st" P "formContainer st" doc]
    by (simp add: c)
  then show ?thesis
    using assms(1) clone_doc_defined [of doc']
    by (simp add: saveRegenBtn_click_def Let_def c)
qed

theorem save_success_persists_document_witness:
  "currentEditingData example_editing =
     Some [(''summary'', JStr ''Old summary''),
           (''skills'', JObj [(''Languages'', JStr ''Python, Go'')])]
   \<and> store (saveRegenBtn_click example_json (Response ''success'' ''http://localhost:8000/view/Acme/2/r.pdf'')
        example_editing) =
     \<lparr>lastResumeData =
        Some [(''summary'', JStr ''New summary''),
              (''skills'', JObj [(''Languages'', JStr ''Python, Go'')])],
      lastViewUrl = Some ''http://localhost:8000/view/Acme/2/r.pdf'',
      lastStatus = Some ''Resume updated.'',
      lastCompany = Some ''Acme''\<rparr>"
proof -
  have d: "currentEditingData example_editing =
     Some [(''summary'', JStr ''Old summary''),
           (''skills'', JObj [(''Languages'', JStr ''Python, Go'')])]"
    by (simp add: example_defs)
  have f: "formContainer example_editing =
      Some \<lparr>ids = [(''edit_summary_text'', ''New summary'')], contact_inputs = [], item_blocks = []\<rparr>"
    and s: "sectionSelect_value example_editing = ''summary''"
    and st: "store example_editing =
      \<lparr>lastResumeData = Some [(''summary'', JStr ''Stored summary'')],
       lastViewUrl = Some ''http://localhost:8000/view/Acme/1/Pranay_Saggar_Resume.pdf'',
       lastStatus = Some ''Resume generated successfully!'',
       lastCompany = Some ''Acme''\<rparr>"
    by (simp_all add: example_defs)
  show ?thesis
    using save_success_persists_document [OF d refl, of example_json
        "''http://localhost:8000/view/Acme/2/r.pdf''"] d
    by (simp add: f s st parseEditor_def clone_doc_def)
qed

text \<open>
  Claim C5 fails on the code in one case. A response with a status other than
  \<^verbatim>\<open>success\<close> changes neither the storage nor the artifact reference and leaves the
  editor open, but nothing is reported: no alert is raised, and the status line keeps
  saying that the PDF is being regenerated. A status that is not ok is reported.
\<close>

theorem save_non_success_not_reported:
  "alerts (saveRegenBtn_click example_json (Response ''error'' []) example_editing) = []
   \<and> statusDiv_text (saveRegenBtn_click example_json (Response ''error'' []) example_editing) =
       ''Regenerating PDF...''
   \<and> store (saveRegenBtn_click example_json (Response ''error'' []) example_editing) =
       store example_editing
   \<and> currentViewUrl (saveRegenBtn_click example_json (Response ''error'' []) example_editing) =
       currentViewUrl example_editing
   \<and> editorUI_display (saveRegenBtn_click example_json (Response ''error'' []) example_editing) =
       ''block''
   \<and> alerts (saveRegenBtn_click example_json (HttpError ''Internal Server Error'') example_editing) =
       [''Error: Regeneration failed: Internal Server Error'']"
  by (simp add: example_defs saveRegenBtn_click_def Let_def)

text \<open>
  Claim C6. For a section the editor has no form for, when the raw text is rejected by
  \<^verbatim>\<open>JSON.parse\<close>, \<^verbatim>\<open>parseEditor\<close> returns the value the document holds for the section;
  committing it leaves every section of the document as it was, and no alert is raised.
\<close>

theorem unknown_section_parse_failure:
  assumes "section \<notin> set known_sections"
    and "currentEditingData st = Some doc"
    and "previousSection st = Some section"
    and "section \<noteq> []"
    and "formContainer st = Some v"
    and "map_of (ids v) ''edit_raw_json'' = Some raw"
    and "json_parse P raw = None"
  shows "parseEditor P section (formContainer st) doc = obj_get doc section
       \<and> (\<exists>doc'. currentEditingData (navigate P b st) = Some doc'
                 \<and> (\<forall>k. obj_get doc' k = obj_get doc k))
       \<and> (\<forall>k. obj_get (commit P section (formContainer st) doc) k = obj_get doc k)
       \<and> alerts (navigate P b st) = alerts st"
proof -
  have p: "parseEditor P section (formContainer st) doc = obj_get doc section"
    using assms(1,5,6,7) by (simp add: parseEditor_def known_sections_def)
  have c: "\<forall>k. obj_get (commit P section (formContainer st) doc) k = obj_get doc k"
    by (simp add: commit_def Let_def p obj_get_obj_set)
  have "currentEditingData (navigate P b st) = Some (commit P section (formContainer st) doc)"
    and "alerts (navigate P b st) = alerts st"
    using assms(2,3,4) change_handler_doc(1,3) [of "st\<lparr>sectionSelect_value := b\<rparr>" doc "section" P]
    by (simp_all add: navigate_def)
  then show ?thesis
    using p c by simp
qed

theorem unknown_section_parse_failure_witness:
  "''awards'' \<notin> set known_sections
   \<and> json_parse example_json ''[oops'' = None
   \<and> parseEditor example_json ''awards'' (formContainer example_unknown)
        [(''awards'', JArr [JStr ''Best paper''])] = JArr [JStr ''Best paper'']
   \<and> currentEditingData (navigate example_json ''summary'' example_unknown) =
        Some [(''awards'', JArr [JStr ''Best paper''])]
   \<and> alerts (navigate example_json ''summary'' example_unknown) = []"
proof -
  let ?doc = "[(''awards'', JArr [JStr ''Best paper''])]"
  let ?v = "\<lparr>ids = [(''edit_raw_json'', ''[oops'')], contact_inputs = [], item_blocks = []\<rparr>"
  have u: "''awards'' \<notin> set known_sections"
    by (simp add: known_sections_def)
  have d: "currentEditingData example_unknown = Some ?doc"
    and p: "previousSection example_unknown = Some ''awards''"
    and f: "formContainer example_unknown = Some ?v"
    and a: "alerts example_unknown = []"
    by (simp_all add: example_unknown_def example_popup_def empty_view_def)
  have j: "json_parse example_json ''[oops'' = None"
    by (simp add: example_json_def)
  have t: "parseEditor example_json ''awards'' (formContainer example_unknown) ?doc =
             obj_get ?doc ''awards''
       \<and> (\<exists>doc'. currentEditingData (navigate example_json ''summary'' example_unknown) = Some doc'
                 \<and> (\<forall>k. obj_get doc' k = obj_get ?doc k))
       \<and> (\<forall>k. obj_get (commit example_json ''awards'' (formContainer example_unknown) ?doc) k =
                obj_get ?doc k)
       \<and> alerts (navigate example_json ''summary'' example_unknown) = alerts example_unknown"
    by (rule unknown_section_parse_failure [OF u d p _ f _ j]) simp_all
  have c: "currentEditingData (navigate example_json ''summary'' example_unknown) = Some ?doc"
    using change_handler_doc(1)
      [of "example_unknown\<lparr>sectionSelect_value := ''summary''\<rparr>" ?doc "''awards''" example_json]
    by (simp add: navigate_def d p f commit_def parseEditor_def j obj_get_def Let_def)
  show ?thesis
    using t u j c a by (simp add: obj_get_def)
qed

text \<open>
  Claim C7, as stated, fails: the result is an object, so of two blocks with the same
  category text only one key remains, with the skills of the later block; the skills of
  the earlier block are lost.
\<close>

theorem skills_duplicates_counterexample:
  "parseEditor example_json ''skills''
     (Some \<lparr>ids = [], contact_inputs = [],
            item_blocks = [[(''skill-category-input'', ''Tools''), (''skill-values-input'', ''Docker'')],
                           [(''skill-category-input'', ''Tools''), (''skill-values-input'', ''Git'')]]\<rparr>)
     [] = JObj [(''Tools'', JStr ''Git'')]"
  by (simp add: parseEditor_def parse_skills_def skills_step_def)

text \<open>
  Claim C7, amended. For a skills view whose category texts are ordinary property names,
  parsing returns an object with one key for each distinct category text, in the order in
  which the texts first appear on display; the value of a key is the skills text of the
  last block that bears it.
\<close>

theorem skills_last_write_wins:
  assumes "list_all (\<lambda>p. plain_key (fst p)) (skill_pairs (item_blocks v))"
  shows "\<exists>r. parseEditor P ''skills'' (Some v) doc = JObj r
           \<and> map fst r = rev (remdups (rev (map fst (skill_pairs (item_blocks v)))))
           \<and> (\<forall>c. map_of r c =
                 map_option JStr (map_of (rev (skill_pairs (item_blocks v))) c))"
proof -
  let ?ps = "skill_pairs (item_blocks v)"
  let ?r = "foldl (\<lambda>acc p. obj_set acc (fst p) (JStr (snd p))) [] ?ps"
  have "parse_skills (item_blocks v) = ?r"
    unfolding parse_skills_def by (rule parse_skills_fold)
  then have p: "parseEditor P ''skills'' (Some v) doc = JObj ?r"
    by (simp add: parseEditor_def)
  have k: "map fst ?r = rev (remdups (rev (map fst ?ps)))"
    by (simp add: fold_set_keys first_occurrences)
  have "map_of (rev (map (\<lambda>p. (fst p, JStr (snd p))) ?ps)) c = map_option JStr (map_of (rev ?ps) c)" for c
    by (simp add: rev_map map_of_map_snd)
  then have l: "\<forall>c. map_of ?r c = map_option JStr (map_of (rev ?ps) c)"
    by (simp add: fold_set_lookup)
  show ?thesis
    using p k l by blast
qed

theorem skills_last_write_wins_witness:
  "list_all (\<lambda>p. plain_key (fst p))
     (skill_pairs [[(''skill-category-input'', ''Languages''), (''skill-values-input'', ''Python, Go'')],
                   [(''skill-category-input'', ''Tools''), (''skill-values-input'', ''Docker'')],
                   [(''skill-category-input'', ''Languages''), (''skill-values-input'', ''Rust'')]])
   \<and> parseEditor example_json ''skills''
        (Some \<lparr>ids = [], contact_inputs = [],
               item_blocks =
                 [[(''skill-category-input'', ''Languages''), (''skill-values-input'', ''Python, Go'')],
                  [(''skill-category-input'', ''Tools''), (''skill-values-input'', ''Docker'')],
                  [(''skill-category-input'', ''Languages''), (''skill-values-input'', ''Rust'')]]\<rparr>)
        [] = JObj [(''Languages'', JStr ''Rust''), (''Tools'', JStr ''Docker'')]"
proof -
  let ?v = "\<lparr>ids = [], contact_inputs = [],
               item_blocks =
                 [[(''skill-category-input'', ''Languages''), (''skill-values-input'', ''Python, Go'')],
                  [(''skill-category-input'', ''Tools''), (''skill-values-input'', ''Docker'')],
                  [(''skill-category-input'', ''Languages''), (''skill-values-input'', ''Rust'')]]\<rparr>"
  have h: "list_all (\<lambda>p. plain_key (fst p)) (skill_pairs (item_blocks ?v))"
    by (simp add: skill_pairs_def plain_key_def is_digit_def)
  show ?thesis
    using skills_last_write_wins [OF h, of example_json "[]"] h
    by (simp add: parseEditor_def parse_skills_def skills_step_def)
qed

text \<open>
  Claim C8, as stated, fails: it speaks of every experience entry, and an entry with a
  bullet that is not text (here a list) makes \<^verbatim>\<open>createBulletRow\<close> throw, so that nothing is
  rendered: the form stays empty and no role field is populated.
\<close>

theorem experience_title_counterexample:
  "map_of [(''company'', JStr ''Acme''), (''title'', JStr ''Engineer''),
           (''bullets'', JArr [JArr [JStr ''Built it'']])] ''role'' = None
   \<and> render_view example_json ''experience''
       (JArr [JObj [(''company'', JStr ''Acme''), (''title'', JStr ''Engineer''),
                    (''bullets'', JArr [JArr [JStr ''Built it'']])]])
     = (\<lparr>ids = [], contact_inputs = [], item_blocks = []\<rparr>, True)"
  by (simp add: render_view_def renderItemBlock_def header_fields_def header_values_def
      obj_get_def js_or_def field_def html_attr_value_def empty_view_def)

text \<open>
  Claim C8, amended. In a list of experience entries that \<^verbatim>\<open>renderEditor\<close> renders without
  a \<^verbatim>\<open>TypeError\<close> and whose texts keep the markup intact, an entry that has no \<^verbatim>\<open>role\<close> key
  and whose \<^verbatim>\<open>title\<close> is \<^verbatim>\<open>"Engineer"\<close> is rendered with its role field holding \<^verbatim>\<open>Engineer\<close>,
  and parsing the rendered view gives, at the entry's position, an entry with
  \<^verbatim>\<open>role: "Engineer"\<close> and no \<^verbatim>\<open>title\<close> key.
\<close>

theorem experience_role_from_title:
  assumes "render_view P ''experience'' (JArr items) = (v, False)"
    and "keeps_markup ''experience'' (JArr items)"
    and "i < length items"
    and "items ! i = JObj kvs"
    and "map_of kvs ''role'' = None"
    and "map_of kvs ''title'' = Some (JStr ''Engineer'')"
  shows "map_of (item_blocks v ! i) ''item-role'' = Some ''Engineer'' \<and>
         (\<exists>es e. parseEditor P ''experience'' (Some v) doc = JArr es \<and>
                 length es = length items \<and> es ! i = JObj e \<and>
                 map_of e ''role'' = Some (JStr ''Engineer'') \<and> map_of e ''title'' = None)"
proof -
  have items: "render_items ''experience'' items = Some (item_blocks v)"
    using assms(1) by (rule list_sections_view) simp
  have len: "length (item_blocks v) = length items"
    using items by (rule render_items_length)
  have blk: "renderItemBlock ''experience'' (JObj kvs) = Some (item_blocks v ! i)"
    using render_items_nth [OF items assms(3)] assms(4) by simp
  have "map_of (header_values ''experience'' kvs) ''item-role'' = Some (JStr ''Engineer'')"
    using assms(5,6) by (simp add: header_values_def obj_get_def js_or_def)
  then have "\<exists>s. to_string (JStr ''Engineer'') = Some s \<and>
      map_of (item_blocks v ! i) ''item-role'' = Some (html_attr_value s)"
    using rendered_header_field [OF blk, of "''item-role''" "JStr ''Engineer''"] by simp
  then have role: "map_of (item_blocks v ! i) ''item-role'' = Some ''Engineer''"
    by (simp add: html_attr_value_def)
  have "parse_item ''experience'' (item_blocks v ! i) =
        JObj [(''company'', getVal (item_blocks v ! i) ''item-company''),
              (''role'', JStr ''Engineer''),
              (''dates'', getVal (item_blocks v ! i) ''item-dates''),
              (''location'', getVal (item_blocks v ! i) ''item-location''),
              (''bullets'', parse_bullets (item_blocks v ! i))]"
    using role by (simp add: parse_item_def getVal_def)
  then show ?thesis
    using role len assms(3) by (simp add: parse_list_nth)
qed

theorem experience_role_from_title_witness:
  "render_view example_json ''experience''
     (JArr [JObj [(''company'', JStr ''AT&T''), (''title'', JStr ''Engineer''),
                  (''bullets'', JArr [JStr ''Ran R&D''])]])
   = (\<lparr>ids = [], contact_inputs = [],
       item_blocks = [[(''item-company'', ''AT&T''), (''item-role'', ''Engineer''),
                       (''item-location'', []), (''item-dates'', []),
                       (''bullet-input'', ''Ran R&D'')]]\<rparr>, False)
   \<and> keeps_markup ''experience''
       (JArr [JObj [(''company'', JStr ''AT&T''), (''title'', JStr ''Engineer''),
                    (''bullets'', JArr [JStr ''Ran R&D''])]])
   \<and> map_of [(''company'', JStr ''AT&T''), (''title'', JStr ''Engineer''),
              (''bullets'', JArr [JStr ''Ran R&D''])] ''role'' = None
   \<and> parseEditor example_json ''experience''
       (Some \<lparr>ids = [], contact_inputs = [],
              item_blocks = [[(''item-company'', ''AT&T''), (''item-role'', ''Engineer''),
                              (''item-location'', []), (''item-dates'', []),
                              (''bullet-input'', ''Ran R&D'')]]\<rparr>) []
     = JArr [JObj [(''company'', JStr ''AT&T''), (''role'', JStr ''Engineer''),
                   (''dates'', JStr []), (''location'', JStr []),
                   (''bullets'', JArr [JStr ''Ran R&D''])]]"
proof -
  let ?kvs = "[(''company'', JStr ''AT&T''), (''title'', JStr ''Engineer''),
               (''bullets'', JArr [JStr ''Ran R&D''])]"
  let ?v = "\<lparr>ids = [], contact_inputs = [],
           item_blocks = [[(''item-company'', ''AT&T''), (''item-role'', ''Engineer''),
                           (''item-location'', []), (''item-dates'', []),
                           (''bullet-input'', ''Ran R&D'')]]\<rparr>"
  have r: "render_view example_json ''experience'' (JArr [JObj ?kvs]) = (?v, False)"
    by (simp add: render_view_def renderItemBlock_def header_fields_def header_values_def
        obj_get_def js_or_def field_def html_attr_value_def empty_view_def)
  have m: "keeps_markup ''experience'' (JArr [JObj ?kvs])"
    by (simp add: keeps_markup_def texts_hold_def item_texts_hold_def header_values_def
        text_holds_def obj_get_def js_or_def no_quote_def no_tag_def)
  have p: "parseEditor example_json ''experience'' (Some ?v) []
     = JArr [JObj [(''company'', JStr ''AT&T''), (''role'', JStr ''Engineer''),
                   (''dates'', JStr []), (''location'', JStr []),
                   (''bullets'', JArr [JStr ''Ran R&D''])]]"
    by (simp add: parseEditor_def parse_item_def getVal_def parse_bullets_def trim_def
        is_space_def)
  show ?thesis
    using experience_role_from_title [OF r m, of 0 ?kvs "[]"] r m p by simp
qed

text \<open>
  Claim C9, as stated, fails: the leadership branch of \<^verbatim>\<open>renderItemBlock\<close> reads \<^verbatim>\<open>role\<close>
  alone. An entry with a \<^verbatim>\<open>title\<close> and no \<^verbatim>\<open>role\<close> is rendered with an empty role field.
\<close>

theorem leadership_title_counterexample:
  "render_view example_json ''leadership''
     (JArr [JObj [(''organization'', JStr ''Chess Club''), (''title'', JStr ''President''),
                  (''bullets'', JArr [])]])
   = (\<lparr>ids = [], contact_inputs = [],
       item_blocks = [[(''item-org'', ''Chess Club''), (''item-role'', []),
                       (''item-location'', []), (''item-dates'', [])]]\<rparr>, False)
   \<and> map_of [(''item-org'', ''Chess Club''), (''item-role'', []),
              (''item-location'', []), (''item-dates'', [])] ''item-role'' \<noteq> Some ''President''"
  by (simp add: render_view_def renderItemBlock_def header_fields_def header_values_def
      obj_get_def js_or_def field_def html_attr_value_def empty_view_def)

text \<open>
  Claim C9, amended. In a list of leadership entries that \<^verbatim>\<open>renderEditor\<close> renders without
  a \<^verbatim>\<open>TypeError\<close> and whose texts keep the markup intact (the \<^verbatim>\<open>title\<close> is not among the
  texts the leadership template interpolates), the role field of an entry is rendered from
  \<^verbatim>\<open>role\<close> alone, with no fallback to \<^verbatim>\<open>title\<close>: it is empty when the entry has no \<^verbatim>\<open>role\<close>
  (or a falsy one), whatever its \<^verbatim>\<open>title\<close>, and it holds the \<^verbatim>\<open>role\<close> when that is a text
  free of markup. Parsing writes the keys \<^verbatim>\<open>organization\<close>, \<^verbatim>\<open>role\<close>, \<^verbatim>\<open>dates\<close>,
  \<^verbatim>\<open>location\<close> and \<^verbatim>\<open>bullets\<close>, with under \<^verbatim>\<open>role\<close> the text of the role field, and no
  \<^verbatim>\<open>title\<close>.
\<close>

theorem leadership_role_only:
  assumes "render_view P ''leadership'' (JArr items) = (v, False)"
    and "keeps_markup ''leadership'' (JArr items)"
    and "i < length items"
    and "items ! i = JObj kvs"
  shows "(\<not> truthy (obj_get kvs ''role'') \<longrightarrow>
            map_of (item_blocks v ! i) ''item-role'' = Some [])
       \<and> (\<forall>s. obj_get kvs ''role'' = JStr s \<and> attr_safe s \<longrightarrow>
            map_of (item_blocks v ! i) ''item-role'' = Some s)
       \<and> (\<exists>es e r. parseEditor P ''leadership'' (Some v) doc = JArr es \<and>
                 length es = length items \<and> es ! i = JObj e \<and>
                 map fst e = [''organization'', ''role'', ''dates'', ''location'', ''bullets''] \<and>
                 map_of (item_blocks v ! i) ''item-role'' = Some r \<and>
                 map_of e ''role'' = Some (JStr r))"
proof -
  have items: "render_items ''leadership'' items = Some (item_blocks v)"
    using assms(1) by (rule list_sections_view) simp
  have len: "length (item_blocks v) = length items"
    using items by (rule render_items_length)
  have blk: "renderItemBlock ''leadership'' (JObj kvs) = Some (item_blocks v ! i)"
    using render_items_nth [OF items assms(3)] assms(4) by simp
  have "map_of (header_values ''leadership'' kvs) ''item-role'' =
        Some (js_or (obj_get kvs ''role'') (JStr []))"
    by (simp add: header_values_def)
  then obtain r where r: "to_string (js_or (obj_get kvs ''role'') (JStr [])) = Some r"
    and role: "map_of (item_blocks v ! i) ''item-role'' = Some (html_attr_value r)"
    using rendered_header_field [OF blk, of "''item-role''"] by auto
  have falsy: "\<not> truthy (obj_get kvs ''role'') \<longrightarrow>
      map_of (item_blocks v ! i) ''item-role'' = Some []"
    using r role by (auto simp: js_or_def html_attr_value_def)
  have texts: "\<forall>s. obj_get kvs ''role'' = JStr s \<and> attr_safe s \<longrightarrow>
      map_of (item_blocks v ! i) ''item-role'' = Some s"
    using r role by (auto simp: js_or_def attr_safe_value split: if_splits)
  have "parse_item ''leadership'' (item_blocks v ! i) =
        JObj [(''organization'', getVal (item_blocks v ! i) ''item-org''),
              (''role'', JStr (html_attr_value r)),
              (''dates'', getVal (item_blocks v ! i) ''item-dates''),
              (''location'', getVal (item_blocks v ! i) ''item-location''),
              (''bullets'', parse_bullets (item_blocks v ! i))]"
    using role by (simp add: parse_item_def getVal_def)
  then have "\<exists>es e r. parseEditor P ''leadership'' (Some v) doc = JArr es \<and>
                 length es = length items \<and> es ! i = JObj e \<and>
                 map fst e = [''organization'', ''role'', ''dates'', ''location'', ''bullets''] \<and>
                 map_of (item_blocks v ! i) ''item-role'' = Some r \<and>
                 map_of e ''role'' = Some (JStr r)"
    using role len assms(3) by (simp add: parse_list_nth)
  then show ?thesis
    using falsy texts by blast
qed

theorem leadership_role_only_witness:
  "render_view example_json ''leadership''
     (JArr [JObj [(''organization'', JStr ''Chess Club''),
                  (''title'', JStr [CHR ''V'', CHR ''P'', CHR 0x22]),
                  (''bullets'', JArr [])]])
   = (\<lparr>ids = [], contact_inputs = [],
       item_blocks = [[(''item-org'', ''Chess Club''), (''item-role'', []),
                       (''item-location'', []), (''item-dates'', [])]]\<rparr>, False)
   \<and> keeps_markup ''leadership''
       (JArr [JObj [(''organization'', JStr ''Chess Club''),
                    (''title'', JStr [CHR ''V'', CHR ''P'', CHR 0x22]),
                    (''bullets'', JArr [])]])
   \<and> \<not> truthy (obj_get [(''organization'', JStr ''Chess Club''),
                         (''title'', JStr [CHR ''V'', CHR ''P'', CHR 0x22]),
                         (''bullets'', JArr [])] ''role'')
   \<and> parseEditor example_json ''leadership''
       (Some \<lparr>ids = [], contact_inputs = [],
              item_blocks = [[(''item-org'', ''Chess Club''), (''item-role'', []),
                              (''item-location'', []), (''item-dates'', [])]]\<rparr>) []
     = JArr [JObj [(''organization'', JStr ''Chess Club''), (''role'', JStr []),
                   (''dates'', JStr []), (''location'', JStr []), (''bullets'', JArr [])]]"
proof -
  let ?kvs = "[(''organization'', JStr ''Chess Club''),
               (''title'', JStr [CHR ''V'', CHR ''P'', CHR 0x22]),
               (''bullets'', JArr [])]"
  let ?v = "\<lparr>ids = [], contact_inputs = [],
           item_blocks = [[(''item-org'', ''Chess Club''), (''item-role'', []),
                           (''item-location'', []), (''item-dates'', [])]]\<rparr>"
  have r: "render_view example_json ''leadership'' (JArr [JObj ?kvs]) = (?v, False)"
    by (simp add: render_view_def renderItemBlock_def header_fields_def header_values_def
        obj_get_def js_or_def field_def html_attr_value_def empty_view_def)
  have m: "keeps_markup ''leadership'' (JArr [JObj ?kvs])"
    by (simp add: keeps_markup_def texts_hold_def item_texts_hold_def header_values_def
        text_holds_def obj_get_def js_or_def no_quote_def no_tag_def)
  have f: "\<not> truthy (obj_get ?kvs ''role'')"
    by (simp add: obj_get_def)
  have p: "parseEditor example_json ''leadership'' (Some ?v) []
     = JArr [JObj [(''organization'', JStr ''Chess Club''), (''role'', JStr []),
                   (''dates'', JStr []), (''location'', JStr []), (''bullets'', JArr [])]]"
    by (simp add: parseEditor_def parse_item_def getVal_def parse_bullets_def)
  show ?thesis
    using leadership_role_only [OF r m, of 0 ?kvs "[]"] r m f p by simp
qed

text \<open>
  Claim C10, as stated, fails in its first clause, which names no section: for a section
  the editor has no form for, \<^verbatim>\<open>parseEditor\<close> returns \<^verbatim>\<open>null\<close> with a form container present
  when the raw text is the JSON text \<^verbatim>\<open>null\<close>, and the auto-save then skips the write.
\<close>

theorem unknown_section_null_counterexample:
  "''awards'' \<notin> set known_sections
   \<and> parseEditor example_json ''awards''
       (Some \<lparr>ids = [(''edit_raw_json'', ''null'')], contact_inputs = [], item_blocks = []\<rparr>)
       [(''awards'', JArr [JStr ''Best paper''])] = JNull
   \<and> commit example_json ''awards''
       (Some \<lparr>ids = [(''edit_raw_json'', ''null'')], contact_inputs = [], item_blocks = []\<rparr>)
       [(''awards'', JArr [JStr ''Best paper''])] = [(''awards'', JArr [JStr ''Best paper''])]"
  by (simp add: known_sections_def parseEditor_def example_json_def commit_def)

text \<open>
  Claim C10, amended. For each of the known sections, \<^verbatim>\<open>parseEditor\<close> returns \<^verbatim>\<open>null\<close>
  exactly when there is no form container; with a container the auto-save therefore
  always assigns the parsed value to the section, in \<open>commit\<close> as in the change handler.
\<close>

theorem known_section_parse_never_null:
  assumes "section \<in> set known_sections"
  shows "(parseEditor P section fc doc = JNull) = (fc = None)
       \<and> commit P section (Some v) doc = obj_set doc section (parseEditor P section (Some v) doc)
       \<and> (currentEditingData st = Some doc \<and> previousSection st = Some section \<and>
          formContainer st = Some v \<longrightarrow>
            currentEditingData (navigate P b st) =
              Some (obj_set doc section (parseEditor P section (Some v) doc)))"
proof -
  have n: "\<And>w. parseEditor P section (Some w) doc \<noteq> JNull"
    using assms by (rule parse_known_not_null)
  have a: "(parseEditor P section fc doc = JNull) = (fc = None)"
    by (cases fc) (simp_all add: n parse_no_container)
  have b: "commit P section (Some v) doc = obj_set doc section (parseEditor P section (Some v) doc)"
    by (simp add: commit_def n)
  have ne: "section \<noteq> []"
    using assms by (auto simp: known_sections_def)
  have "currentEditingData st = Some doc \<and> previousSection st = Some section \<and>
          formContainer st = Some v \<longrightarrow>
            currentEditingData (navigate P b st) =
              Some (obj_set doc section (parseEditor P section (Some v) doc))"
    using change_handler_doc(1,3) [of "st\<lparr>sectionSelect_value := b\<rparr>" doc "section" P] ne b
    by (auto simp: navigate_def)
  then show ?thesis
    using a b by simp
qed

theorem known_section_parse_never_null_witness:
  "''summary'' \<in> set known_sections
   \<and> parseEditor example_json ''summary'' None [] = JNull
   \<and> parseEditor example_json ''summary'' (Some empty_view) [] = JStr []
   \<and> currentEditingData (navigate example_json ''skills'' example_editing) =
        Some [(''summary'', JStr ''New summary''),
              (''skills'', JObj [(''Languages'', JStr ''Python, Go'')])]"
proof -
  let ?doc = "[(''summary'', JStr ''Old summary''),
               (''skills'', JObj [(''Languages'', JStr ''Python, Go'')])]"
  let ?v = "\<lparr>ids = [(''edit_summary_text'', ''New summary'')], contact_inputs = [], item_blocks = []\<rparr>"
  have k: "''summary'' \<in> set known_sections"
    by (simp add: known_sections_def)
  have d: "currentEditingData example_editing = Some ?doc"
    and p: "previousSection example_editing = Some ''summary''"
    and f: "formContainer example_editing = Some ?v"
    by (simp_all add: example_defs)
  have n: "currentEditingData (navigate example_json ''skills'' example_editing) =
             Some (obj_set ?doc ''summary'' (parseEditor example_json ''summary'' (Some ?v) ?doc))"
    using known_section_parse_never_null [OF k, of example_json None ?doc ?v example_editing "''skills''"]
      d p f
    by simp
  show ?thesis
    using k n by (simp add: parseEditor_def empty_view_def)
qed

end
